theory Spec2Isabelle
  imports Complex_Main "HOL-Library.Word" "HOL-Library.Sublist" "HOL-Library.Multiset"
begin

text \<open>
  A to-do service: four HTTP routes (list, create, update, delete) over one array of
  tasks, kept in a key-value namespace or, without a binding to one, in a variable of the
  module. The repository holds several versions of the server. This theory embeds
  \<^item> the first module of \<open>src/server.ts\<close> (identifiers from \<open>crypto.randomUUID()\<close>,
    namespace or local array, a failing namespace answered 500), on which the properties
    are stated;
  \<^item> the handlers of its second module (numeric identifiers from \<open>Date.now()\<close>,
    \<open>Boolean(body.completed)\<close>, a failing namespace passed over in silence);
  \<^item> the create of the first version, \<open>src/unnamed/part_001\<close>.
  The third module of \<open>src/server.ts\<close> and \<open>src/unnamed/part_000\<close> have the handlers of
  the first module; they differ in the status of the catch-all answer and in what a
  failing namespace or file does.
\<close>

section \<open>JavaScript values\<close>

text \<open>
  A JavaScript string is a sequence of 16-bit code units. \<open>ascii\<close> writes a string
  constant of the source (all of them are ASCII) as such a sequence.
\<close>

type_synonym jstring = "16 word list"

definition ascii :: "string \<Rightarrow> jstring" where
  "ascii s = map (\<lambda>c. of_nat (of_char c)) s"

text \<open>
  \<open>String.prototype.trim\<close> strips white space and line terminators from both ends:
  TAB, LF, VT, FF, CR, SP, NBSP, U+1680, U+2000 to U+200A, LS, PS, U+202F, U+205F,
  U+3000 and the byte order mark.
\<close>

definition isWhiteSpace :: "16 word \<Rightarrow> bool" where
  "isWhiteSpace c \<longleftrightarrow>
     c = 0x9 \<or> c = 0xA \<or> c = 0xB \<or> c = 0xC \<or> c = 0xD \<or> c = 0x20 \<or> c = 0xA0 \<or>
     c = 0x1680 \<or> (0x2000 \<le> c \<and> c \<le> 0x200A) \<or> c = 0x2028 \<or> c = 0x2029 \<or>
     c = 0x202F \<or> c = 0x205F \<or> c = 0x3000 \<or> c = 0xFEFF"

definition trim :: "jstring \<Rightarrow> jstring" where
  "trim s = rev (dropWhile isWhiteSpace (rev (dropWhile isWhiteSpace s)))"

text \<open>
  The value \<open>c.req.json()\<close> returns: the result of \<open>JSON.parse\<close>. \<open>JNum\<close> carries the
  number value (JSON has no NaN). \<open>JObj\<close> lists the members in the order of the text.
\<close>

datatype json =
    JNull
  | JBool bool
  | JNum rat
  | JStr jstring
  | JArr "json list"
  | JObj "(jstring \<times> json) list"

datatype exn = TypeError | SyntaxError | KVError

text \<open>
  \<open>body.task\<close> and \<open>body.completed\<close>: reading a property of \<open>null\<close> throws a
  TypeError; an object yields the member (the last one, when the text repeats a key) or
  \<open>undefined\<close>, here \<open>None\<close>; numbers, booleans, strings and arrays have no property
  of either name, neither has \<open>Object.prototype\<close>.
\<close>

definition key_task :: jstring where
  "key_task = ascii ''task''"

definition key_completed :: jstring where
  "key_completed = ascii ''completed''"

definition getProp :: "json \<Rightarrow> jstring \<Rightarrow> exn + json option" where
  "getProp v k =
     (case v of
        JNull \<Rightarrow> Inl TypeError
      | JObj members \<Rightarrow> Inr (map_of (rev members) k)
      | _ \<Rightarrow> Inr None)"

datatype jstype = TUndefined | TObject | TBoolean | TNumber | TString

fun typeof :: "json option \<Rightarrow> jstype" where
  "typeof None = TUndefined"
| "typeof (Some JNull) = TObject"
| "typeof (Some (JBool b)) = TBoolean"
| "typeof (Some (JNum n)) = TNumber"
| "typeof (Some (JStr s)) = TString"
| "typeof (Some (JArr vs)) = TObject"
| "typeof (Some (JObj members)) = TObject"

text \<open>\<open>Boolean(v)\<close>, and the truth value \<open>!v\<close> negates.\<close>

fun truthy :: "json option \<Rightarrow> bool" where
  "truthy None = False"
| "truthy (Some JNull) = False"
| "truthy (Some (JBool b)) = b"
| "truthy (Some (JNum n)) = (n \<noteq> 0)"
| "truthy (Some (JStr s)) = (s \<noteq> [])"
| "truthy (Some (JArr vs)) = True"
| "truthy (Some (JObj members)) = True"

text \<open>\<open>v.trim()\<close>: a TypeError unless \<open>v\<close> is a string.\<close>

fun trim_call :: "json option \<Rightarrow> exn + jstring" where
  "trim_call (Some (JStr s)) = Inr (trim s)"
| "trim_call _ = Inl TypeError"

text \<open>\<open>Array.prototype.findIndex\<close>; \<open>None\<close> is the source's \<open>-1\<close>.\<close>

fun findIndex :: "('a \<Rightarrow> bool) \<Rightarrow> 'a list \<Rightarrow> nat option" where
  "findIndex P [] = None"
| "findIndex P (x # xs) = (if P x then Some 0 else map_option Suc (findIndex P xs))"

text \<open>\<open>tasks.splice(i, 1)\<close>: the array without its element at \<open>i\<close>.\<close>

definition splice1 :: "nat \<Rightarrow> 'a list \<Rightarrow> 'a list" where
  "splice1 i xs = take i xs @ drop (Suc i) xs"


section \<open>Tasks, the store and the responses\<close>

text \<open>
  \<open>interface Task\<close>. The identifier is a string in \<open>src/server.ts\<close> and a number in
  the variant that takes it from \<open>Date.now()\<close>, so its type is a parameter.
\<close>

record 'i Task =
  id' :: 'i
  task :: jstring
  completed :: bool
  createdAt :: jstring

text \<open>
  The key-value namespace holds the serialised array under the key \<open>tasks\<close>:
  \<open>None\<close> when the key was never written. Tasks are records of strings and booleans,
  which \<open>JSON.parse\<close> reads back as \<open>JSON.stringify\<close> wrote them, so the model keeps
  the array itself.
\<close>

datatype 'i kv = KV (tasks_key: "'i Task list option")

text \<open>
  The state a request runs in: the binding \<open>c.env.TODO_KV\<close> (\<open>None\<close> when the
  server runs locally, without a binding) and the module variable \<open>localTasks\<close>.
\<close>

record world =
  TODO_KV :: "jstring kv option"
  localTasks :: "jstring Task list"

text \<open>
  What a request takes from its environment: whether the namespace's \<open>get\<close> (or the
  parse of what it returns) and its \<open>put\<close> throw, the value of
  \<open>crypto.randomUUID()\<close> and that of \<open>new Date().toISOString()\<close>.
\<close>

record env =
  kv_get_throws :: bool
  kv_put_throws :: bool
  randomUUID :: jstring
  now_iso :: jstring

text \<open>
  The error messages of the envelope \<open>{success: false, error: ...}\<close>, by the place
  that sends them: the task field of a create is required, the task field of an update
  must be a non-empty string, its completed field must be a boolean, the task was not
  found, the listing failed, the request could not be processed.
\<close>

datatype error =
    TaskRequired
  | TaskInvalid
  | CompletedInvalid
  | NotFound
  | ListFailed
  | ProcessingFailed

datatype 'i payload = Data "'i Task" | DataList "'i Task list" | Error error

datatype 'i response = Response (status: nat) (payload: "'i payload")

definition success :: "'i response \<Rightarrow> bool" where
  "success r = (case payload r of Error e \<Rightarrow> False | _ \<Rightarrow> True)"


section \<open>Persistence (src/server.ts)\<close>

definition getTasks :: "env \<Rightarrow> world \<Rightarrow> exn + jstring Task list" where
  "getTasks e w =
     (case TODO_KV w of
        Some ns \<Rightarrow>
          if kv_get_throws e then Inl KVError
          else Inr (case tasks_key ns of Some ts \<Rightarrow> ts | None \<Rightarrow> [])
      | None \<Rightarrow> Inr (localTasks w))"

definition saveTasks :: "env \<Rightarrow> world \<Rightarrow> jstring Task list \<Rightarrow> exn + world" where
  "saveTasks e w ts =
     (case TODO_KV w of
        Some ns \<Rightarrow>
          if kv_put_throws e then Inl KVError
          else Inr (w\<lparr>TODO_KV := Some (KV (Some ts))\<rparr>)
      | None \<Rightarrow> Inr (w\<lparr>localTasks := ts\<rparr>))"

text \<open>
  Without a binding \<open>getTasks\<close> returns \<open>localTasks\<close> itself, not a copy: what a
  handler then does to the array in place (\<open>push\<close>, \<open>splice\<close>, an assignment to a
  field of an element) it does to \<open>localTasks\<close>, before \<open>saveTasks\<close> runs. With a
  binding the array is a fresh one, parsed from the namespace.
\<close>

definition inPlace :: "world \<Rightarrow> jstring Task list \<Rightarrow> world" where
  "inPlace w ts = (case TODO_KV w of Some ns \<Rightarrow> w | None \<Rightarrow> w\<lparr>localTasks := ts\<rparr>)"

text \<open>The collection a request finds stored.\<close>

definition stored :: "world \<Rightarrow> jstring Task list" where
  "stored w =
     (case TODO_KV w of
        Some ns \<Rightarrow> (case tasks_key ns of Some ts \<Rightarrow> ts | None \<Rightarrow> [])
      | None \<Rightarrow> localTasks w)"


section \<open>Route handlers (src/server.ts)\<close>

text \<open>
  Each handler takes the request (the \<open>id\<close> parameter and the body, \<open>None\<close> when
  \<open>c.req.json()\<close> throws) and returns the response with the state it leaves.
\<close>

definition list_todos :: "env \<Rightarrow> world \<Rightarrow> jstring response \<times> world" where
  "list_todos e w =
     (case getTasks e w of
        Inl x \<Rightarrow> (Response 500 (Error ListFailed), w)
      | Inr tasks \<Rightarrow> (Response 200 (DataList tasks), w))"

definition create_todo :: "env \<Rightarrow> json option \<Rightarrow> world \<Rightarrow> jstring response \<times> world" where
  "create_todo e body w =
     (case body of
        None \<Rightarrow> (Response 500 (Error ProcessingFailed), w)
      | Some b \<Rightarrow>
     (case getProp b key_task of
        Inl x \<Rightarrow> (Response 500 (Error ProcessingFailed), w)
      | Inr t \<Rightarrow>
          if \<not> truthy t \<or> typeof t \<noteq> TString \<or> trim_call t = Inr []
          then (Response 400 (Error TaskRequired), w)
          else
     (case trim_call t of
        Inl x \<Rightarrow> (Response 500 (Error ProcessingFailed), w)
      | Inr s \<Rightarrow>
          let newTask = \<lparr>id' = randomUUID e, task = s, completed = False,
                         createdAt = now_iso e\<rparr>
          in
     (case getTasks e w of
        Inl x \<Rightarrow> (Response 500 (Error ProcessingFailed), w)
      | Inr tasks \<Rightarrow>
          let tasks1 = tasks @ [newTask];
              w1 = inPlace w tasks1
          in
     (case saveTasks e w1 tasks1 of
        Inl x \<Rightarrow> (Response 500 (Error ProcessingFailed), w1)
      | Inr w2 \<Rightarrow> (Response 201 (Data newTask), w2))))))"

text \<open>
  The update assigns each field in its own block, entered when the body has the field:
  \<open>tasks1\<close> and \<open>w1\<close> are the array and the state after the block of \<open>task\<close>,
  \<open>tasks2\<close> and \<open>w2\<close> those after the block of \<open>completed\<close>. The text \<open>s\<close> is
  \<open>body.task.trim()\<close> when the block is entered and is not used otherwise.
  \<open>body.completed\<close> is assigned once it is known to be a boolean, and a boolean is its
  own truth value.
\<close>

definition update_todo ::
  "env \<Rightarrow> jstring \<Rightarrow> json option \<Rightarrow> world \<Rightarrow> jstring response \<times> world" where
  "update_todo e ident body w =
     (case body of
        None \<Rightarrow> (Response 500 (Error ProcessingFailed), w)
      | Some b \<Rightarrow>
     (case getTasks e w of
        Inl x \<Rightarrow> (Response 500 (Error ProcessingFailed), w)
      | Inr tasks \<Rightarrow>
     (case findIndex (\<lambda>t. id' t = ident) tasks of
        None \<Rightarrow> (Response 404 (Error NotFound), w)
      | Some i \<Rightarrow>
     (case getProp b key_task of
        Inl x \<Rightarrow> (Response 500 (Error ProcessingFailed), w)
      | Inr t \<Rightarrow>
          if t \<noteq> None \<and> (typeof t \<noteq> TString \<or> trim_call t = Inr [])
          then (Response 400 (Error TaskInvalid), w)
          else
     (case (if t \<noteq> None then trim_call t else Inr (task (tasks ! i))) of
        Inl x \<Rightarrow> (Response 500 (Error ProcessingFailed), w)
      | Inr s \<Rightarrow>
          let tasks1 = (if t \<noteq> None then tasks[i := (tasks ! i)\<lparr>task := s\<rparr>] else tasks);
              w1 = (if t \<noteq> None then inPlace w tasks1 else w)
          in
     (case getProp b key_completed of
        Inl x \<Rightarrow> (Response 500 (Error ProcessingFailed), w1)
      | Inr d \<Rightarrow>
          if d \<noteq> None \<and> typeof d \<noteq> TBoolean
          then (Response 400 (Error CompletedInvalid), w1)
          else
            let tasks2 = (if d \<noteq> None
                          then tasks1[i := (tasks1 ! i)\<lparr>completed := truthy d\<rparr>]
                          else tasks1);
                w2 = (if d \<noteq> None then inPlace w1 tasks2 else w1)
            in
     (case saveTasks e w2 tasks2 of
        Inl x \<Rightarrow> (Response 500 (Error ProcessingFailed), w2)
      | Inr w3 \<Rightarrow> (Response 200 (Data (tasks2 ! i)), w3))))))))"

definition delete_todo :: "env \<Rightarrow> jstring \<Rightarrow> world \<Rightarrow> jstring response \<times> world" where
  "delete_todo e ident w =
     (case getTasks e w of
        Inl x \<Rightarrow> (Response 500 (Error ProcessingFailed), w)
      | Inr tasks \<Rightarrow>
     (case findIndex (\<lambda>t. id' t = ident) tasks of
        None \<Rightarrow> (Response 404 (Error NotFound), w)
      | Some i \<Rightarrow>
          let deletedTask = tasks ! i;
              tasks1 = splice1 i tasks;
              w1 = inPlace w tasks1
          in
     (case saveTasks e w1 tasks1 of
        Inl x \<Rightarrow> (Response 500 (Error ProcessingFailed), w1)
      | Inr w2 \<Rightarrow> (Response 200 (Data deletedTask), w2))))"


text \<open>A request that changes the store, and the store after a sequence of them.\<close>

datatype op =
    Create env "json option"
  | Update env jstring "json option"
  | Delete env jstring

fun handle :: "op \<Rightarrow> world \<Rightarrow> jstring response \<times> world" where
  "handle (Create e body) w = create_todo e body w"
| "handle (Update e ident body) w = update_todo e ident body w"
| "handle (Delete e ident) w = delete_todo e ident w"

fun run :: "op list \<Rightarrow> world \<Rightarrow> world" where
  "run [] w = w"
| "run (x # xs) w = run xs (snd (handle x w))"

fun is_update :: "op \<Rightarrow> bool" where
  "is_update (Update e ident body) = True"
| "is_update _ = False"

text \<open>
  The records the successful creates of a sequence returned, and those its successful
  deletes returned: a create answers 201 and a delete 200 with the record.
\<close>

definition sent :: "nat \<Rightarrow> 'i response \<Rightarrow> 'i Task list" where
  "sent code r =
     (case payload r of
        Data t \<Rightarrow> if status r = code then [t] else []
      | _ \<Rightarrow> [])"

fun created :: "op list \<Rightarrow> world \<Rightarrow> jstring Task list" where
  "created [] w = []"
| "created (x # xs) w =
     (case x of Create e body \<Rightarrow> sent 201 (fst (handle x w)) | _ \<Rightarrow> [])
     @ created xs (snd (handle x w))"

fun deleted :: "op list \<Rightarrow> world \<Rightarrow> jstring Task list" where
  "deleted [] w = []"
| "deleted (x # xs) w =
     (case x of Delete e ident \<Rightarrow> sent 200 (fst (handle x w)) | _ \<Rightarrow> [])
     @ deleted xs (snd (handle x w))"

text \<open>
  Every create of the sequence draws an identifier that no stored record has at that
  moment.
\<close>

fun fresh_ids :: "op list \<Rightarrow> world \<Rightarrow> bool" where
  "fresh_ids [] w = True"
| "fresh_ids (Create e body # xs) w =
     (randomUUID e \<notin> set (map id' (stored w)) \<and> fresh_ids xs (snd (create_todo e body w)))"
| "fresh_ids (x # xs) w = fresh_ids xs (snd (handle x w))"


section \<open>The variant with numeric identifiers (second module of src/server.ts)\<close>

text \<open>
  This module has no local store. Its \<open>getTasks\<close> answers the empty array when the
  namespace fails (also when there is no binding: the call on \<open>undefined\<close> throws
  inside the \<open>try\<close>), and its \<open>saveTasks\<close> only logs a failure. The state is the
  binding.
\<close>

record env_num =
  get_throws :: bool
  put_throws :: bool
  Date_now :: int
  toISOString :: jstring

definition getTasks_num :: "env_num \<Rightarrow> int kv option \<Rightarrow> int Task list" where
  "getTasks_num e s =
     (case s of
        None \<Rightarrow> []
      | Some ns \<Rightarrow>
          if get_throws e then []
          else (case tasks_key ns of Some ts \<Rightarrow> ts | None \<Rightarrow> []))"

definition saveTasks_num :: "env_num \<Rightarrow> int kv option \<Rightarrow> int Task list \<Rightarrow> int kv option" where
  "saveTasks_num e s ts =
     (case s of
        None \<Rightarrow> s
      | Some ns \<Rightarrow> if put_throws e then s else Some (KV (Some ts)))"

definition stored_num :: "int kv option \<Rightarrow> int Task list" where
  "stored_num s =
     (case s of
        None \<Rightarrow> []
      | Some ns \<Rightarrow> (case tasks_key ns of Some ts \<Rightarrow> ts | None \<Rightarrow> []))"

definition create_todo_num ::
  "env_num \<Rightarrow> json option \<Rightarrow> int kv option \<Rightarrow> int response \<times> int kv option" where
  "create_todo_num e body s =
     (case body of
        None \<Rightarrow> (Response 400 (Error ProcessingFailed), s)
      | Some b \<Rightarrow>
     (case getProp b key_task of
        Inl x \<Rightarrow> (Response 400 (Error ProcessingFailed), s)
      | Inr t \<Rightarrow>
          if \<not> truthy t \<or> typeof t \<noteq> TString \<or> trim_call t = Inr []
          then (Response 400 (Error TaskRequired), s)
          else
     (case trim_call t of
        Inl x \<Rightarrow> (Response 400 (Error ProcessingFailed), s)
      | Inr v \<Rightarrow>
          let newTask = \<lparr>id' = Date_now e, task = v, completed = False,
                         createdAt = toISOString e\<rparr>;
              tasks = getTasks_num e s;
              tasks1 = tasks @ [newTask]
          in (Response 201 (Data newTask), saveTasks_num e s tasks1))))"

text \<open>
  The \<open>id\<close> parameter arrives as \<open>parseInt(c.req.param('id'))\<close>: \<open>None\<close> is NaN,
  which is equal to no identifier.
\<close>

definition update_todo_num ::
  "env_num \<Rightarrow> int option \<Rightarrow> json option \<Rightarrow> int kv option \<Rightarrow> int response \<times> int kv option" where
  "update_todo_num e ident body s =
     (case body of
        None \<Rightarrow> (Response 400 (Error ProcessingFailed), s)
      | Some b \<Rightarrow>
          let tasks = getTasks_num e s in
     (case findIndex (\<lambda>t. Some (id' t) = ident) tasks of
        None \<Rightarrow> (Response 404 (Error NotFound), s)
      | Some i \<Rightarrow>
     (case getProp b key_task of
        Inl x \<Rightarrow> (Response 400 (Error ProcessingFailed), s)
      | Inr t \<Rightarrow>
          if t \<noteq> None \<and> (typeof t \<noteq> TString \<or> trim_call t = Inr [])
          then (Response 400 (Error TaskInvalid), s)
          else
     (case (if t \<noteq> None then trim_call t else Inr (task (tasks ! i))) of
        Inl x \<Rightarrow> (Response 400 (Error ProcessingFailed), s)
      | Inr v \<Rightarrow>
          let tasks1 = (if t \<noteq> None then tasks[i := (tasks ! i)\<lparr>task := v\<rparr>] else tasks)
          in
     (case getProp b key_completed of
        Inl x \<Rightarrow> (Response 400 (Error ProcessingFailed), s)
      | Inr d \<Rightarrow>
          let tasks2 = (if d \<noteq> None
                        then tasks1[i := (tasks1 ! i)\<lparr>completed := truthy d\<rparr>]
                        else tasks1)
          in (Response 200 (Data (tasks2 ! i)), saveTasks_num e s tasks2))))))"

definition delete_todo_num ::
  "env_num \<Rightarrow> int option \<Rightarrow> int kv option \<Rightarrow> int response \<times> int kv option" where
  "delete_todo_num e ident s =
     (let tasks = getTasks_num e s in
      case findIndex (\<lambda>t. Some (id' t) = ident) tasks of
        None \<Rightarrow> (Response 404 (Error NotFound), s)
      | Some i \<Rightarrow>
          let deletedTask = tasks ! i;
              tasks1 = splice1 i tasks
          in (Response 200 (Data deletedTask), saveTasks_num e s tasks1))"

text \<open>Requests that change the store of this variant, as for the first module.\<close>

datatype op_num =
    Create_num env_num "json option"
  | Update_num env_num "int option" "json option"
  | Delete_num env_num "int option"

fun handle_num :: "op_num \<Rightarrow> int kv option \<Rightarrow> int response \<times> int kv option" where
  "handle_num (Create_num e body) s = create_todo_num e body s"
| "handle_num (Update_num e ident body) s = update_todo_num e ident body s"
| "handle_num (Delete_num e ident) s = delete_todo_num e ident s"

fun run_num :: "op_num list \<Rightarrow> int kv option \<Rightarrow> int kv option" where
  "run_num [] s = s"
| "run_num (x # xs) s = run_num xs (snd (handle_num x s))"

fun fresh_ids_num :: "op_num list \<Rightarrow> int kv option \<Rightarrow> bool" where
  "fresh_ids_num [] s = True"
| "fresh_ids_num (Create_num e body # xs) s =
     (Date_now e \<notin> set (map id' (stored_num s)) \<and>
      fresh_ids_num xs (snd (create_todo_num e body s)))"
| "fresh_ids_num (x # xs) s = fresh_ids_num xs (snd (handle_num x s))"


section \<open>The first version of the server (src/unnamed/part_001)\<close>

text \<open>
  An array of \<open>{id, task}\<close> objects in memory and a create that stores \<open>body.task\<close>
  as it comes (\<open>None\<close> when the body has none). Nothing catches an exception, so a
  failing \<open>c.req.json()\<close> or a \<open>null\<close> body ends in the framework's error response,
  before the array is touched. \<open>c.json(newTask)\<close> answers 200.
\<close>

record Task_simple =
  id_simple :: int
  task_simple :: "json option"

datatype response_simple = Json nat Task_simple | Unhandled exn

definition tasks_simple :: "Task_simple list" where
  "tasks_simple =
     [\<lparr>id_simple = 1, task_simple = Some (JStr (ascii ''Escovar os dentes''))\<rparr>,
      \<lparr>id_simple = 2, task_simple = Some (JStr (ascii ''Estudar Vue.js''))\<rparr>]"

definition create_todo_simple ::
  "int \<Rightarrow> json option \<Rightarrow> Task_simple list \<Rightarrow> response_simple \<times> Task_simple list" where
  "create_todo_simple now body tasks =
     (case body of
        None \<Rightarrow> (Unhandled SyntaxError, tasks)
      | Some b \<Rightarrow>
     (case getProp b key_task of
        Inl x \<Rightarrow> (Unhandled x, tasks)
      | Inr t \<Rightarrow>
          let newTask = \<lparr>id_simple = now, task_simple = t\<rparr>
          in (Json 200 newTask, tasks @ [newTask])))"


section \<open>Notions used in the statements\<close>

text \<open>
  The namespace answers this request's \<open>get\<close>, respectively its \<open>put\<close>. Without a
  binding there is nothing that can fail.
\<close>

definition readable :: "env \<Rightarrow> world \<Rightarrow> bool" where
  "readable e w \<longleftrightarrow> TODO_KV w = None \<or> \<not> kv_get_throws e"

definition writable :: "env \<Rightarrow> world \<Rightarrow> bool" where
  "writable e w \<longleftrightarrow> TODO_KV w = None \<or> \<not> kv_put_throws e"

text \<open>The two checks of the update, and the arrays its two assignments leave.\<close>

definition task_accepted :: "json option \<Rightarrow> bool" where
  "task_accepted t \<longleftrightarrow> \<not> (t \<noteq> None \<and> (typeof t \<noteq> TString \<or> trim_call t = Inr []))"

definition completed_accepted :: "json option \<Rightarrow> bool" where
  "completed_accepted d \<longleftrightarrow> \<not> (d \<noteq> None \<and> typeof d \<noteq> TBoolean)"

definition assign_task :: "json option \<Rightarrow> nat \<Rightarrow> 'i Task list \<Rightarrow> 'i Task list" where
  "assign_task t i tasks =
     (case t of Some (JStr s) \<Rightarrow> tasks[i := (tasks ! i)\<lparr>task := trim s\<rparr>] | _ \<Rightarrow> tasks)"

definition assign_completed :: "json option \<Rightarrow> nat \<Rightarrow> 'i Task list \<Rightarrow> 'i Task list" where
  "assign_completed d i tasks =
     (case d of Some (JBool v) \<Rightarrow> tasks[i := (tasks ! i)\<lparr>completed := v\<rparr>] | _ \<Rightarrow> tasks)"

text \<open>Sample data: a request environment whose namespace works, tasks and stores.\<close>

definition env_at :: "string \<Rightarrow> env" where
  "env_at u = \<lparr>kv_get_throws = False, kv_put_throws = False, randomUUID = ascii u,
               now_iso = ascii ''2024-05-01T10:00:00.000Z''\<rparr>"

definition task_at :: "string \<Rightarrow> string \<Rightarrow> jstring Task" where
  "task_at u txt = \<lparr>id' = ascii u, task = ascii txt, completed = False,
                    createdAt = ascii ''2024-05-01T10:00:00.000Z''\<rparr>"

definition local_world :: "jstring Task list \<Rightarrow> world" where
  "local_world ts = \<lparr>TODO_KV = None, localTasks = ts\<rparr>"

definition kv_world :: "jstring Task list \<Rightarrow> world" where
  "kv_world ts = \<lparr>TODO_KV = Some (KV (Some ts)), localTasks = []\<rparr>"

definition env_num_at :: "int \<Rightarrow> env_num" where
  "env_num_at n = \<lparr>get_throws = False, put_throws = False, Date_now = n,
                   toISOString = ascii ''2024-05-01T10:00:00.000Z''\<rparr>"

definition task_num_at :: "int \<Rightarrow> string \<Rightarrow> int Task" where
  "task_num_at n txt = \<lparr>id' = n, task = ascii txt, completed = False,
                        createdAt = ascii ''2024-05-01T10:00:00.000Z''\<rparr>"

definition body_of :: "string \<Rightarrow> json" where
  "body_of txt = JObj [(key_task, JStr (ascii txt))]"


section \<open>Lookup, trimming and the store\<close>

lemma findIndex_None_iff: "findIndex P xs = None \<longleftrightarrow> (\<forall>x\<in>set xs. \<not> P x)"
  by (induction xs) auto

lemma findIndex_Some_D:
  "findIndex P xs = Some i \<Longrightarrow> i < length xs \<and> P (xs ! i) \<and> (\<forall>j<i. \<not> P (xs ! j))"
proof (induction xs arbitrary: i)
  case Nil
  then show ?case by simp
next
  case (Cons x xs)
  show ?case
  proof (cases "P x")
    case True
    with Cons.prems show ?thesis by simp
  next
    case False
    with Cons.prems obtain k where k: "findIndex P xs = Some k" "i = Suc k"
      by auto
    from Cons.IH [OF k(1)] False k(2) show ?thesis
      by (auto simp: nth_Cons split: nat.splits)
  qed
qed

lemma trim_Nil: "trim [] = []"
  by (simp add: trim_def)

lemma trim_nonempty: "trim s \<noteq> [] \<Longrightarrow> s \<noteq> []"
  by (auto simp: trim_Nil)

lemma typeof_TString: "typeof t = TString \<longleftrightarrow> (\<exists>s. t = Some (JStr s))"
  by (cases t rule: typeof.cases) auto

lemma typeof_TBoolean: "typeof d = TBoolean \<longleftrightarrow> (\<exists>v. d = Some (JBool v))"
  by (cases d rule: typeof.cases) auto

lemma task_accepted_cases:
  "task_accepted t \<longleftrightarrow> t = None \<or> (\<exists>s. t = Some (JStr s) \<and> trim s \<noteq> [])"
  by (cases t rule: typeof.cases) (auto simp: task_accepted_def)

lemma completed_accepted_cases:
  "completed_accepted d \<longleftrightarrow> d = None \<or> (\<exists>v. d = Some (JBool v))"
  by (cases d rule: typeof.cases) (auto simp: completed_accepted_def)

lemma getTasks_readable: "readable e w \<Longrightarrow> getTasks e w = Inr (stored w)"
  by (auto simp: readable_def getTasks_def stored_def split: option.splits)

lemma getTasks_unreadable: "\<not> readable e w \<Longrightarrow> getTasks e w = Inl KVError"
  by (auto simp: readable_def getTasks_def split: option.splits)

lemma getTasks_Inr: "getTasks e w = Inr ts \<Longrightarrow> ts = stored w"
  by (auto simp: getTasks_def stored_def split: option.splits if_splits)

lemma TODO_KV_inPlace: "TODO_KV (inPlace w ts) = TODO_KV w"
  by (simp add: inPlace_def split: option.splits)

lemma stored_inPlace: "stored (inPlace w ts) = (if TODO_KV w = None then ts else stored w)"
  by (simp add: inPlace_def stored_def split: option.splits)

lemma inPlace_inPlace: "inPlace (inPlace w ts) ts' = inPlace w ts'"
  by (simp add: inPlace_def split: option.splits)

lemma writable_inPlace: "writable e (inPlace w ts) = writable e w"
  by (simp add: writable_def TODO_KV_inPlace)

lemma saveTasks_writable:
  "writable e w \<Longrightarrow> \<exists>w'. saveTasks e w ts = Inr w' \<and> stored w' = ts"
  by (auto simp: writable_def saveTasks_def stored_def split: option.splits)

lemma saveTasks_stored: "saveTasks e w ts = Inr w' \<Longrightarrow> stored w' = ts"
  by (auto simp: saveTasks_def stored_def split: option.splits if_splits)

lemma saveTasks_inPlace_Inl: "saveTasks e (inPlace w ts) ts' = Inl x \<Longrightarrow> inPlace w ts = w"
  by (auto simp: saveTasks_def inPlace_def split: option.splits if_splits)

lemma saveTasks_stored_same:
  assumes "writable e w" and "stored w \<noteq> []"
  shows "saveTasks e w (stored w) = Inr w"
proof (cases "TODO_KV w")
  case None
  then show ?thesis by (simp add: saveTasks_def stored_def)
next
  case (Some ns)
  with assms(2) obtain ts where "ns = KV (Some ts)"
    by (cases ns) (auto simp: stored_def split: option.splits)
  with Some assms(1) show ?thesis
    by (simp add: saveTasks_def stored_def writable_def)
qed

lemma findIndex_length: "findIndex P xs = Some i \<Longrightarrow> i < length xs"
  by (simp add: findIndex_Some_D)

lemma getProp_Inl: "getProp b k = Inl x \<Longrightarrow> getProp b k' = Inl x"
  by (auto simp: getProp_def split: json.splits)

lemma inPlace_kv: "TODO_KV w \<noteq> None \<Longrightarrow> inPlace w ts = w"
  by (auto simp: inPlace_def split: option.splits)

lemma map_update_same: "f y = f (xs ! i) \<Longrightarrow> map f (xs[i := y]) = map f xs"
  by (induction xs arbitrary: i) (auto split: nat.splits)

lemma assign_task_eq:
  "assign_task t i xs =
     xs[i := (xs ! i)\<lparr>task := (case t of Some (JStr s) \<Rightarrow> trim s | _ \<Rightarrow> task (xs ! i))\<rparr>]"
  by (simp add: assign_task_def split: option.splits json.splits)

lemma assign_completed_eq:
  "assign_completed d i xs =
     xs[i := (xs ! i)\<lparr>completed := (case d of Some (JBool c) \<Rightarrow> c | _ \<Rightarrow> completed (xs ! i))\<rparr>]"
  by (simp add: assign_completed_def split: option.splits json.splits)

lemma assign_both:
  assumes "i < length xs"
  shows "assign_completed d i (assign_task t i xs) =
     xs[i := (xs ! i)\<lparr>task := (case t of Some (JStr s) \<Rightarrow> trim s | _ \<Rightarrow> task (xs ! i)),
                      completed := (case d of Some (JBool c) \<Rightarrow> c | _ \<Rightarrow> completed (xs ! i))\<rparr>]"
  unfolding assign_completed_eq [of d] assign_task_eq [of t]
  using assms by (simp split: option.splits json.splits)

lemma map_id_assign_task: "map id' (assign_task t i xs) = map id' xs"
  unfolding assign_task_eq by (rule map_update_same) simp

lemma map_id_assign_completed: "map id' (assign_completed d i xs) = map id' xs"
  unfolding assign_completed_eq by (rule map_update_same) simp

lemma set_splice1: "x \<in> set (splice1 i xs) \<Longrightarrow> \<exists>j<length xs. j \<noteq> i \<and> x = xs ! j"
proof -
  assume "x \<in> set (splice1 i xs)"
  then consider "x \<in> set (take i xs)" | "x \<in> set (drop (Suc i) xs)"
    by (auto simp: splice1_def)
  then show ?thesis
  proof cases
    case 1
    then obtain j where "j < length (take i xs)" "x = take i xs ! j"
      by (auto simp: in_set_conv_nth)
    then show ?thesis by (intro exI [of _ j]) auto
  next
    case 2
    then obtain j where "j < length (drop (Suc i) xs)" "x = drop (Suc i) xs ! j"
      by (auto simp: in_set_conv_nth)
    then show ?thesis by (intro exI [of _ "Suc i + j"]) auto
  qed
qed

lemma length_splice1: "i < length xs \<Longrightarrow> Suc (length (splice1 i xs)) = length xs"
  by (auto simp: splice1_def)

lemma mset_splice1: "i < length xs \<Longrightarrow> add_mset (xs ! i) (mset (splice1 i xs)) = mset xs"
proof -
  assume "i < length xs"
  then have "xs = take i xs @ xs ! i # drop (Suc i) xs"
    by (rule id_take_nth_drop)
  then have "mset xs = mset (take i xs @ xs ! i # drop (Suc i) xs)" by simp
  then show ?thesis by (simp add: splice1_def)
qed

lemma subseq_splice1: "subseq (splice1 i xs) xs"
proof (induction xs arbitrary: i)
  case Nil
  show ?case by (simp add: splice1_def)
next
  case (Cons x xs)
  show ?case
  proof (cases i)
    case 0
    have "subseq xs (x # xs)" by (rule list_emb_Cons) simp
    with 0 show ?thesis by (simp add: splice1_def)
  next
    case (Suc k)
    with Cons [of k] show ?thesis by (simp add: splice1_def)
  qed
qed

lemma stored_kv_world: "stored (kv_world ts) = ts"
  by (simp add: stored_def kv_world_def)

lemma stored_local_world: "stored (local_world ts) = ts"
  by (simp add: stored_def local_world_def)

lemma id_task_at: "id' (task_at u txt) = ascii u"
  by (simp add: task_at_def)

lemma sent_Error: "sent code (Response st (Error x)) = []"
  by (simp add: sent_def)

lemma sent_cases: "sent code r = [] \<or> (\<exists>t. sent code r = [t])"
  by (simp add: sent_def split: payload.splits)

lemma distinct_take_drop: "distinct ys \<Longrightarrow> distinct (take i ys @ drop (Suc i) ys)"
  using set_take_disj_set_drop_if_distinct [of ys i "Suc i"] by simp

lemma distinct_splice1: "distinct (map f xs) \<Longrightarrow> distinct (map f (splice1 i xs))"
  using distinct_take_drop [of "map f xs" i] by (simp add: splice1_def take_map drop_map)


section \<open>The handlers, case by case\<close>

lemma create_todo_rejected:
  assumes "getProp b key_task = Inr t" and "\<not> (\<exists>s. t = Some (JStr s) \<and> trim s \<noteq> [])"
  shows "create_todo e (Some b) w = (Response 400 (Error TaskRequired), w)"
proof (cases "typeof t = TString")
  case True
  then obtain s where "t = Some (JStr s)" by (auto simp: typeof_TString)
  with assms show ?thesis by (simp add: create_todo_def)
next
  case False
  with assms(1) show ?thesis by (simp add: create_todo_def)
qed

lemma create_todo_accepted:
  assumes "getProp b key_task = Inr (Some (JStr s))" and "trim s \<noteq> []"
    and "newTask = \<lparr>id' = randomUUID e, task = trim s, completed = False,
                     createdAt = now_iso e\<rparr>"
  shows "create_todo e (Some b) w =
     (case getTasks e w of
        Inl x \<Rightarrow> (Response 500 (Error ProcessingFailed), w)
      | Inr tasks \<Rightarrow>
         (case saveTasks e (inPlace w (tasks @ [newTask])) (tasks @ [newTask]) of
            Inl x \<Rightarrow> (Response 500 (Error ProcessingFailed), inPlace w (tasks @ [newTask]))
          | Inr w2 \<Rightarrow> (Response 201 (Data newTask), w2)))"
  using assms trim_nonempty [OF assms(2)]
  by (simp add: create_todo_def Let_def split: sum.splits)

lemma update_todo_task_rejected:
  assumes "getTasks e w = Inr tasks" and "findIndex (\<lambda>t. id' t = ident) tasks = Some i"
    and "getProp b key_task = Inr t" and "\<not> task_accepted t"
  shows "update_todo e ident (Some b) w = (Response 400 (Error TaskInvalid), w)"
  using assms by (simp add: update_todo_def task_accepted_def)

lemma update_todo_completed_rejected:
  assumes "getTasks e w = Inr tasks" and "findIndex (\<lambda>t. id' t = ident) tasks = Some i"
    and "getProp b key_task = Inr t" and "task_accepted t"
    and "getProp b key_completed = Inr d" and "\<not> completed_accepted d"
  shows "update_todo e ident (Some b) w =
           (Response 400 (Error CompletedInvalid),
            if t = None then w else inPlace w (assign_task t i tasks))"
proof (cases t)
  case None
  with assms show ?thesis
    by (simp add: update_todo_def completed_accepted_def)
next
  case (Some v)
  with assms(4) obtain s where s: "t = Some (JStr s)" "trim s \<noteq> []"
    by (auto simp: task_accepted_cases)
  with assms show ?thesis
    by (simp add: update_todo_def completed_accepted_def assign_task_def)
qed

lemma update_todo_accepted:
  assumes "getTasks e w = Inr tasks" and "findIndex (\<lambda>t. id' t = ident) tasks = Some i"
    and "getProp b key_task = Inr t" and "task_accepted t"
    and "getProp b key_completed = Inr d" and "completed_accepted d"
  shows "update_todo e ident (Some b) w =
           (case saveTasks e
                   (if t = None \<and> d = None then w
                    else inPlace w (assign_completed d i (assign_task t i tasks)))
                   (assign_completed d i (assign_task t i tasks)) of
              Inl x \<Rightarrow>
                (Response 500 (Error ProcessingFailed),
                 if t = None \<and> d = None then w
                 else inPlace w (assign_completed d i (assign_task t i tasks)))
            | Inr w3 \<Rightarrow>
                (Response 200 (Data (assign_completed d i (assign_task t i tasks) ! i)), w3))"
proof -
  from assms(4) have t: "t = None \<or> (\<exists>s. t = Some (JStr s) \<and> trim s \<noteq> [])"
    by (simp add: task_accepted_cases)
  from assms(6) have d: "d = None \<or> (\<exists>v. d = Some (JBool v))"
    by (simp add: completed_accepted_cases)
  from t d show ?thesis
    by (elim disjE exE conjE)
      (use assms(1,2,3,5) in
        \<open>simp_all add: update_todo_def assign_task_def assign_completed_def inPlace_inPlace
           Let_def split: sum.splits\<close>)
qed

lemma delete_todo_found:
  assumes "getTasks e w = Inr tasks" and "findIndex (\<lambda>t. id' t = ident) tasks = Some i"
  shows "delete_todo e ident w =
     (case saveTasks e (inPlace w (splice1 i tasks)) (splice1 i tasks) of
        Inl x \<Rightarrow> (Response 500 (Error ProcessingFailed), inPlace w (splice1 i tasks))
      | Inr w2 \<Rightarrow> (Response 200 (Data (tasks ! i)), w2))"
  using assms by (simp add: delete_todo_def Let_def split: sum.splits)

text \<open>
  A body that is \<open>null\<close>: reading \<open>body.task\<close> throws, the handler's \<open>catch\<close>
  answers 500 and the state is as it was.
\<close>

lemma create_todo_null:
  "create_todo e (Some JNull) w = (Response 500 (Error ProcessingFailed), w)"
  by (simp add: create_todo_def getProp_def)

lemma update_todo_null:
  assumes "getTasks e w = Inr tasks" and "findIndex (\<lambda>t. id' t = ident) tasks = Some i"
  shows "update_todo e ident (Some JNull) w = (Response 500 (Error ProcessingFailed), w)"
  using assms by (simp add: update_todo_def getProp_def)

text \<open>Every way an update can end.\<close>

lemma update_todo_cases:
  fixes e ident body w
  defines "r \<equiv> update_todo e ident body w"
  shows "(snd r = w \<and> status (fst r) \<noteq> 200) \<or>
    (\<exists>i t. TODO_KV w = None \<and> findIndex (\<lambda>x. id' x = ident) (stored w) = Some i \<and>
       fst r = Response 400 (Error CompletedInvalid) \<and>
       snd r = inPlace w (assign_task t i (stored w))) \<or>
    (\<exists>i t d. findIndex (\<lambda>x. id' x = ident) (stored w) = Some i \<and>
       fst r = Response 200 (Data (assign_completed d i (assign_task t i (stored w)) ! i)) \<and>
       stored (snd r) = assign_completed d i (assign_task t i (stored w)))"
proof (cases body)
  case None
  then show ?thesis by (simp add: r_def update_todo_def)
next
  case (Some b)
  show ?thesis
  proof (cases "getTasks e w")
    case (Inl x)
    with Some show ?thesis by (simp add: r_def update_todo_def)
  next
    case (Inr tasks)
    then have tasks: "tasks = stored w" by (rule getTasks_Inr)
    note get = Inr [unfolded tasks]
    show ?thesis
    proof (cases "findIndex (\<lambda>x. id' x = ident) (stored w)")
      case None
      with Some get show ?thesis by (simp add: r_def update_todo_def)
    next
      case found: (Some i)
      show ?thesis
      proof (cases "getProp b key_task")
        case (Inl x)
        with Some get found show ?thesis by (simp add: r_def update_todo_def)
      next
        case t: (Inr t)
        obtain d where d: "getProp b key_completed = Inr d"
          using t getProp_Inl [of b key_completed _ key_task] by (cases "getProp b key_completed") auto
        show ?thesis
        proof (cases "task_accepted t")
          case False
          from update_todo_task_rejected [OF get found t False] Some
          show ?thesis by (simp add: r_def)
        next
          case ta: True
          show ?thesis
          proof (cases "completed_accepted d")
            case False
            note rej = update_todo_completed_rejected [OF get found t ta d False]
            show ?thesis
            proof (cases "TODO_KV w = None \<and> t \<noteq> None")
              case True
              with rej Some found show ?thesis by (auto simp: r_def)
            next
              case False
              with rej Some show ?thesis by (auto simp: r_def inPlace_kv)
            qed
          next
            case da: True
            let ?ts = "assign_completed d i (assign_task t i (stored w))"
            let ?w2 = "if t = None \<and> d = None then w else inPlace w ?ts"
            note acc = update_todo_accepted [OF get found t ta d da]
            show ?thesis
            proof (cases "saveTasks e ?w2 ?ts")
              case (Inl x)
              then have "TODO_KV ?w2 \<noteq> None"
                by (auto simp: saveTasks_def split: option.splits if_splits)
              then have "?w2 = w" by (auto simp: TODO_KV_inPlace inPlace_kv)
              with acc Inl Some show ?thesis by (simp add: r_def)
            next
              case saved: (Inr w3)
              then have "stored w3 = ?ts" by (rule saveTasks_stored)
              with acc saved Some found show ?thesis by (auto simp: r_def)
            qed
          qed
        qed
      qed
    qed
  qed
qed


text \<open>
  What a create and a delete leave stored, in terms of the record they answer with, and
  what an update leaves of the identifiers.
\<close>

lemma create_effect:
  "stored (snd (create_todo e body w)) = stored w @ sent 201 (fst (create_todo e body w)) \<and>
   (\<forall>t\<in>set (sent 201 (fst (create_todo e body w))). id' t = randomUUID e)"
proof (cases body)
  case None
  then show ?thesis by (simp add: create_todo_def sent_Error)
next
  case (Some b)
  show ?thesis
  proof (cases "getProp b key_task")
    case (Inl x)
    with Some show ?thesis by (simp add: create_todo_def sent_Error)
  next
    case (Inr t)
    show ?thesis
    proof (cases "\<exists>s. t = Some (JStr s) \<and> trim s \<noteq> []")
      case False
      from create_todo_rejected [OF Inr False] Some show ?thesis by (simp add: sent_Error)
    next
      case True
      then obtain s where s: "t = Some (JStr s)" "trim s \<noteq> []" by blast
      let ?nt = "\<lparr>id' = randomUUID e, task = trim s, completed = False, createdAt = now_iso e\<rparr>"
      note acc = create_todo_accepted [OF Inr [unfolded s(1)] s(2) refl, of e w]
      show ?thesis
      proof (cases "getTasks e w")
        case (Inl x)
        with acc Some show ?thesis by (simp add: sent_Error)
      next
        case tasks: (Inr tasks)
        then have eq: "tasks = stored w" by (rule getTasks_Inr)
        show ?thesis
        proof (cases "saveTasks e (inPlace w (stored w @ [?nt])) (stored w @ [?nt])")
          case (Inl x)
          then have "inPlace w (stored w @ [?nt]) = w" by (rule saveTasks_inPlace_Inl)
          with acc Some tasks eq Inl show ?thesis by (simp add: sent_Error)
        next
          case (Inr w2)
          then have "stored w2 = stored w @ [?nt]" by (rule saveTasks_stored)
          with acc Some tasks eq Inr show ?thesis by (simp add: sent_def)
        qed
      qed
    qed
  qed
qed

lemma delete_effect:
  "(sent 200 (fst (delete_todo e ident w)) = [] \<and> stored (snd (delete_todo e ident w)) = stored w) \<or>
   (\<exists>i<length (stored w).
        sent 200 (fst (delete_todo e ident w)) = [stored w ! i] \<and>
        stored (snd (delete_todo e ident w)) = splice1 i (stored w))"
proof (cases "getTasks e w")
  case (Inl x)
  then show ?thesis by (simp add: delete_todo_def sent_Error)
next
  case (Inr tasks)
  then have eq: "tasks = stored w" by (rule getTasks_Inr)
  note get = Inr [unfolded eq]
  show ?thesis
  proof (cases "findIndex (\<lambda>t. id' t = ident) (stored w)")
    case None
    with get show ?thesis by (simp add: delete_todo_def sent_Error)
  next
    case (Some i)
    then have i: "i < length (stored w)" by (rule findIndex_length)
    note found = delete_todo_found [OF get Some]
    show ?thesis
    proof (cases "saveTasks e (inPlace w (splice1 i (stored w))) (splice1 i (stored w))")
      case (Inl x)
      then have "inPlace w (splice1 i (stored w)) = w" by (rule saveTasks_inPlace_Inl)
      with found Inl show ?thesis by (simp add: sent_Error)
    next
      case (Inr w2)
      then have "stored w2 = splice1 i (stored w)" by (rule saveTasks_stored)
      with found Inr i show ?thesis by (auto simp: sent_def)
    qed
  qed
qed

lemma update_keeps_ids:
  "map id' (stored (snd (update_todo e ident body w))) = map id' (stored w)"
  using update_todo_cases [of e ident body w]
  by (auto simp: stored_inPlace map_id_assign_task map_id_assign_completed)

text \<open>
  A create or a delete that does not answer with success leaves the stored collection as
  it was; so does an update when there is a binding.
\<close>

lemma create_error_keeps_store:
  assumes "status (fst (create_todo e body w)) \<noteq> 201"
  shows "stored (snd (create_todo e body w)) = stored w"
proof -
  from assms have "sent 201 (fst (create_todo e body w)) = []"
    by (simp add: sent_def split: payload.splits)
  with create_effect [of e body w] show ?thesis by simp
qed

lemma delete_error_keeps_store:
  assumes "status (fst (delete_todo e ident w)) \<noteq> 200"
  shows "stored (snd (delete_todo e ident w)) = stored w"
proof -
  from assms have "sent 200 (fst (delete_todo e ident w)) = []"
    by (simp add: sent_def split: payload.splits)
  with delete_effect [of e ident w] show ?thesis by auto
qed

lemma update_error_keeps_store_kv:
  assumes "TODO_KV w \<noteq> None" and "status (fst (update_todo e ident body w)) \<noteq> 200"
  shows "snd (update_todo e ident body w) = w"
  using update_todo_cases [of e ident body w] assms by auto

text \<open>The handlers on the sample data.\<close>

lemma create_local:
  "create_todo (env_at u) (Some (body_of ''a'')) (local_world ts) =
     (Response 201 (Data (task_at u ''a'')), local_world (ts @ [task_at u ''a'']))"
  "create_todo (env_at u) (Some (body_of ''b'')) (local_world ts) =
     (Response 201 (Data (task_at u ''b'')), local_world (ts @ [task_at u ''b'']))"
  by (simp_all add: create_todo_def body_of_def getProp_def getTasks_def saveTasks_def
      inPlace_def local_world_def env_at_def task_at_def trim_def isWhiteSpace_def ascii_def
      Let_def)

lemma delete_local_first:
  "delete_todo (env_at u) (ascii ''u1'') (local_world (task_at ''u1'' txt # ts)) =
     (Response 200 (Data (task_at ''u1'' txt)), local_world ts)"
  by (simp add: delete_todo_def getTasks_def saveTasks_def inPlace_def local_world_def
      env_at_def id_task_at splice1_def)


section \<open>Creating a task\<close>

text \<open>
  C1. When the body's \<open>task\<close> is a string that is not empty after trimming, and the
  namespace (if there is one) answers, the create takes the identifier \<open>generateId()\<close>
  returns and the current time, answers 201 with the record made of them, the trimmed
  text and \<open>completed = false\<close>, and leaves stored the former collection with that record
  appended at the end.
\<close>

theorem create_valid_task:
  assumes "getProp b key_task = Inr (Some (JStr s))" and "trim s \<noteq> []"
    and "readable e w" and "writable e w"
  shows "fst (create_todo e (Some b) w) =
           Response 201 (Data \<lparr>id' = randomUUID e, task = trim s, completed = False,
                                 createdAt = now_iso e\<rparr>) \<and>
         stored (snd (create_todo e (Some b) w)) =
           stored w @ [\<lparr>id' = randomUUID e, task = trim s, completed = False,
                        createdAt = now_iso e\<rparr>]"
proof -
  let ?nt = "\<lparr>id' = randomUUID e, task = trim s, completed = False, createdAt = now_iso e\<rparr>"
  let ?ts = "stored w @ [?nt]"
  have "writable e (inPlace w ?ts)"
    using assms(4) by (simp add: writable_inPlace)
  then obtain w' where w': "saveTasks e (inPlace w ?ts) ?ts = Inr w'" "stored w' = ?ts"
    using saveTasks_writable by blast
  have "create_todo e (Some b) w = (Response 201 (Data ?nt), w')"
    using create_todo_accepted [OF assms(1,2) refl, of e w] w'(1)
    by (simp add: getTasks_readable [OF assms(3)])
  with w'(2) show ?thesis by simp
qed

theorem create_valid_task_witness:
  "fst (create_todo (env_at ''u1'') (Some (JObj [(key_task, JStr (ascii '' Buy milk ''))]))
         (local_world [])) =
     Response 201 (Data (task_at ''u1'' ''Buy milk'')) \<and>
   stored (snd (create_todo (env_at ''u1'')
                  (Some (JObj [(key_task, JStr (ascii '' Buy milk ''))])) (local_world []))) =
     [task_at ''u1'' ''Buy milk'']"
  using create_valid_task [of "JObj [(key_task, JStr (ascii '' Buy milk ''))]"
      "ascii '' Buy milk ''" "env_at ''u1''" "local_world []"]
  by (simp add: getProp_def trim_def ascii_def isWhiteSpace_def readable_def writable_def
      env_at_def local_world_def stored_def task_at_def)


text \<open>
  C4. In \<open>src/server.ts\<close>, when the \<open>task\<close> read from the body is absent, is not a
  string, or is a string that is empty after trimming, the create answers 400 and leaves
  the state as it was, whatever the namespace does. (The first version of the server,
  below, has no such check.)
\<close>

theorem create_invalid_task:
  assumes "getProp b key_task = Inr t"
    and "t = None \<or> (\<forall>s. t \<noteq> Some (JStr s)) \<or> (\<exists>s. t = Some (JStr s) \<and> trim s = [])"
  shows "create_todo e (Some b) w = (Response 400 (Error TaskRequired), w)"
proof -
  from assms(2) have "\<not> (\<exists>s. t = Some (JStr s) \<and> trim s \<noteq> [])" by auto
  with assms(1) show ?thesis by (rule create_todo_rejected)
qed

theorem create_invalid_task_witness:
  "create_todo (env_at ''u2'') (Some (JObj [(key_task, JNum 123)])) (local_world [task_at ''u1'' ''a'']) =
     (Response 400 (Error TaskRequired), local_world [task_at ''u1'' ''a'']) \<and>
   create_todo (env_at ''u2'') (Some (JObj [(key_task, JStr (ascii ''  ''))])) (local_world [task_at ''u1'' ''a'']) =
     (Response 400 (Error TaskRequired), local_world [task_at ''u1'' ''a'']) \<and>
   create_todo (env_at ''u2'') (Some (JObj [])) (local_world [task_at ''u1'' ''a'']) =
     (Response 400 (Error TaskRequired), local_world [task_at ''u1'' ''a''])"
  using create_invalid_task [of "JObj [(key_task, JNum 123)]" "Some (JNum 123)" "env_at ''u2''"
      "local_world [task_at ''u1'' ''a'']"]
    create_invalid_task [of "JObj [(key_task, JStr (ascii ''  ''))]" "Some (JStr (ascii ''  ''))"
      "env_at ''u2''" "local_world [task_at ''u1'' ''a'']"]
    create_invalid_task [of "JObj []" None "env_at ''u2''" "local_world [task_at ''u1'' ''a'']"]
  by (simp add: getProp_def trim_def ascii_def isWhiteSpace_def)

text \<open>
  The create of the first version stores the body's \<open>task\<close> as it comes: the number
  123 is appended to the array and the answer is 200.
\<close>

theorem create_simple_counterexample:
  "create_todo_simple 1700000000000 (Some (JObj [(key_task, JNum 123)])) tasks_simple =
     (Json 200 \<lparr>id_simple = 1700000000000, task_simple = Some (JNum 123)\<rparr>,
      tasks_simple @ [\<lparr>id_simple = 1700000000000, task_simple = Some (JNum 123)\<rparr>])"
  by (simp add: create_todo_simple_def getProp_def Let_def)


section \<open>Updating a task\<close>

text \<open>
  C7. When no stored record has the requested identifier and the store can be read, the
  update answers 404 and leaves the state as it was.
\<close>

theorem update_unknown_id:
  assumes "ident \<notin> set (map id' (stored w))" and "readable e w"
  shows "update_todo e ident (Some b) w = (Response 404 (Error NotFound), w)"
proof -
  have "findIndex (\<lambda>t. id' t = ident) (stored w) = None"
    using assms(1) by (auto simp: findIndex_None_iff)
  then show ?thesis
    by (simp add: update_todo_def getTasks_readable [OF assms(2)])
qed

theorem update_unknown_id_witness:
  "update_todo (env_at ''u9'') (ascii ''u2'') (Some (JObj [(key_completed, JBool True)]))
     (kv_world [task_at ''u1'' ''a'']) =
   (Response 404 (Error NotFound), kv_world [task_at ''u1'' ''a''])"
  using update_unknown_id [of "ascii ''u2''" "kv_world [task_at ''u1'' ''a'']" "env_at ''u9''"
      "JObj [(key_completed, JBool True)]"]
  by (simp add: stored_def kv_world_def task_at_def ascii_def readable_def env_at_def)

text \<open>
  C10. When record \<open>i\<close> is the first with the requested identifier, the body is a
  value from which \<open>task\<close> and \<open>completed\<close> can be read (any but \<open>null\<close>) and has
  neither of them, and the namespace (if there is one) answers, the update answers 200
  with that record and leaves the state as it was.
\<close>

theorem update_empty_body_identity:
  assumes "findIndex (\<lambda>t. id' t = ident) (stored w) = Some i"
    and "getProp b key_task = Inr None" and "getProp b key_completed = Inr None"
    and "readable e w" and "writable e w"
  shows "update_todo e ident (Some b) w = (Response 200 (Data (stored w ! i)), w)"
proof -
  from assms(1) have "i < length (stored w)" by (simp add: findIndex_Some_D)
  then have "stored w \<noteq> []" by auto
  with assms(5) have "saveTasks e w (stored w) = Inr w" by (rule saveTasks_stored_same)
  then show ?thesis
    using update_todo_accepted [OF getTasks_readable [OF assms(4)] assms(1) assms(2) _ assms(3)]
    by (simp add: task_accepted_def completed_accepted_def assign_task_def assign_completed_def)
qed

theorem update_empty_body_identity_witness:
  "update_todo (env_at ''u9'') (ascii ''u2'') (Some (JObj []))
     (kv_world [task_at ''u1'' ''a'', task_at ''u2'' ''b'']) =
   (Response 200 (Data (task_at ''u2'' ''b'')), kv_world [task_at ''u1'' ''a'', task_at ''u2'' ''b''])"
  using update_empty_body_identity [of "ascii ''u2''" "kv_world [task_at ''u1'' ''a'', task_at ''u2'' ''b'']"
      "Suc 0" "JObj []" "env_at ''u9''"]
  by (simp add: stored_def kv_world_def task_at_def ascii_def readable_def writable_def env_at_def getProp_def)

text \<open>
  The body \<open>null\<close> has neither field, and the update of a stored identifier with it is
  answered 500: reading \<open>body.task\<close> throws and the \<open>catch\<close> answers. The state is as
  it was.
\<close>

theorem update_null_body_counterexample:
  "update_todo (env_at ''u9'') (ascii ''u2'') (Some JNull)
     (kv_world [task_at ''u1'' ''a'', task_at ''u2'' ''b'']) =
   (Response 500 (Error ProcessingFailed), kv_world [task_at ''u1'' ''a'', task_at ''u2'' ''b''])"
  by (simp add: update_todo_def getTasks_def getProp_def kv_world_def env_at_def task_at_def
      ascii_def)

text \<open>
  C5. When record \<open>i\<close> is the first with the requested identifier and the body has
  \<open>completed: true\<close> and no \<open>task\<close>, whatever the update answers, the stored
  collection keeps its length, every record but \<open>i\<close>, and the identifier, text and
  creation time of record \<open>i\<close>; when the namespace (if there is one) answers, the
  response is 200 with record \<open>i\<close> completed, which is what is stored.
\<close>

theorem update_completed_only:
  assumes "findIndex (\<lambda>t. id' t = ident) (stored w) = Some i"
    and "getProp b key_task = Inr None"
    and "getProp b key_completed = Inr (Some (JBool True))"
    and "update_todo e ident (Some b) w = (r, w')"
  shows "length (stored w') = length (stored w) \<and>
         (\<forall>j<length (stored w). j \<noteq> i \<longrightarrow> stored w' ! j = stored w ! j) \<and>
         id' (stored w' ! i) = id' (stored w ! i) \<and>
         task (stored w' ! i) = task (stored w ! i) \<and>
         createdAt (stored w' ! i) = createdAt (stored w ! i) \<and>
         (readable e w \<and> writable e w \<longrightarrow>
            r = Response 200 (Data ((stored w ! i)\<lparr>completed := True\<rparr>)) \<and>
            stored w' = (stored w)[i := (stored w ! i)\<lparr>completed := True\<rparr>])"
proof (cases "readable e w")
  case False
  then have "w' = w"
    using assms(4) by (simp add: update_todo_def getTasks_unreadable)
  with False show ?thesis by simp
next
  case True
  let ?ts = "(stored w)[i := (stored w ! i)\<lparr>completed := True\<rparr>]"
  from assms(1) have i: "i < length (stored w)" by (rule findIndex_length)
  have step: "(r, w') =
      (case saveTasks e (inPlace w ?ts) ?ts of
         Inl x \<Rightarrow> (Response 500 (Error ProcessingFailed), inPlace w ?ts)
       | Inr w3 \<Rightarrow> (Response 200 (Data (?ts ! i)), w3))"
    using update_todo_accepted [OF getTasks_readable [OF True] assms(1) assms(2) _ assms(3)]
      assms(4)
    by (simp add: task_accepted_def completed_accepted_def assign_task_def assign_completed_def
        cong: sum.case_cong)
  show ?thesis
  proof (cases "saveTasks e (inPlace w ?ts) ?ts")
    case (Inl x)
    then have "inPlace w ?ts = w" by (rule saveTasks_inPlace_Inl)
    with Inl step have "w' = w" by simp
    moreover have "\<not> writable e w"
      using Inl saveTasks_writable [of e "inPlace w ?ts" ?ts] by (auto simp: writable_inPlace)
    ultimately show ?thesis by simp
  next
    case (Inr w3)
    with step have "r = Response 200 (Data (?ts ! i))" "w' = w3" by simp_all
    moreover from Inr have "stored w3 = ?ts" by (rule saveTasks_stored)
    ultimately show ?thesis using i by simp
  qed
qed

theorem update_completed_only_witness:
  "update_todo (env_at ''u9'') (ascii ''u2'') (Some (JObj [(key_completed, JBool True)]))
     (local_world [task_at ''u1'' ''a'', task_at ''u2'' ''b'']) =
   (Response 200 (Data ((task_at ''u2'' ''b'')\<lparr>completed := True\<rparr>)),
     local_world [task_at ''u1'' ''a'', (task_at ''u2'' ''b'')\<lparr>completed := True\<rparr>]) \<and>
   stored (local_world [task_at ''u1'' ''a'', (task_at ''u2'' ''b'')\<lparr>completed := True\<rparr>]) =
     [task_at ''u1'' ''a'', (task_at ''u2'' ''b'')\<lparr>completed := True\<rparr>]"
proof -
  have run: "update_todo (env_at ''u9'') (ascii ''u2'') (Some (JObj [(key_completed, JBool True)]))
     (local_world [task_at ''u1'' ''a'', task_at ''u2'' ''b'']) =
   (Response 200 (Data ((task_at ''u2'' ''b'')\<lparr>completed := True\<rparr>)),
     local_world [task_at ''u1'' ''a'', (task_at ''u2'' ''b'')\<lparr>completed := True\<rparr>])"
    by (simp add: update_todo_def getTasks_def saveTasks_def inPlace_def local_world_def
        task_at_def ascii_def getProp_def key_task_def key_completed_def env_at_def)
  show ?thesis
    using update_completed_only [OF _ _ _ run, of "Suc 0"] run
    by (simp add: stored_def local_world_def task_at_def ascii_def getProp_def
        key_task_def key_completed_def readable_def writable_def)
qed

text \<open>
  C6. In \<open>src/server.ts\<close>, for an update of a stored identifier with the store
  readable: a \<open>completed\<close> that is present and not a boolean is answered 400, with the
  message about \<open>completed\<close> whenever the \<open>task\<close> is absent or acceptable; when
  \<open>task\<close> is absent or a string not empty after trimming, \<open>completed\<close> is absent or
  a boolean and the namespace takes the write, the answer is 200 with the record in which
  the fields present, and only those, are replaced, and that record is stored in place of
  the old one.
\<close>

theorem update_completed_checked:
  assumes "findIndex (\<lambda>x. id' x = ident) (stored w) = Some i" and "readable e w"
    and "getProp b key_task = Inr t" and "getProp b key_completed = Inr d"
  shows "((\<exists>v. d = Some v \<and> (\<forall>c. v \<noteq> JBool c)) \<longrightarrow>
            status (fst (update_todo e ident (Some b) w)) = 400 \<and>
            (t = None \<or> (\<exists>s. t = Some (JStr s) \<and> trim s \<noteq> []) \<longrightarrow>
               fst (update_todo e ident (Some b) w) = Response 400 (Error CompletedInvalid))) \<and>
         ((t = None \<or> (\<exists>s. t = Some (JStr s) \<and> trim s \<noteq> [])) \<and>
          (d = None \<or> (\<exists>c. d = Some (JBool c))) \<and> writable e w \<longrightarrow>
            fst (update_todo e ident (Some b) w) =
              Response 200 (Data ((stored w ! i)
                \<lparr>task := (case t of Some (JStr s) \<Rightarrow> trim s | _ \<Rightarrow> task (stored w ! i)),
                 completed := (case d of Some (JBool c) \<Rightarrow> c | _ \<Rightarrow> completed (stored w ! i))\<rparr>)) \<and>
            stored (snd (update_todo e ident (Some b) w)) =
              (stored w)[i := (stored w ! i)
                \<lparr>task := (case t of Some (JStr s) \<Rightarrow> trim s | _ \<Rightarrow> task (stored w ! i)),
                 completed := (case d of Some (JBool c) \<Rightarrow> c | _ \<Rightarrow> completed (stored w ! i))\<rparr>])"
proof (intro conjI impI)
  note get = getTasks_readable [OF assms(2)]
  from assms(1) have i: "i < length (stored w)" by (rule findIndex_length)
  {
    assume "\<exists>v. d = Some v \<and> (\<forall>c. v \<noteq> JBool c)"
    then have rej: "\<not> completed_accepted d" by (auto simp: completed_accepted_cases)
    show "status (fst (update_todo e ident (Some b) w)) = 400"
    proof (cases "task_accepted t")
      case True
      from update_todo_completed_rejected [OF get assms(1,3) True assms(4) rej]
      show ?thesis by simp
    next
      case False
      from update_todo_task_rejected [OF get assms(1,3) False]
      show ?thesis by simp
    qed
    assume "t = None \<or> (\<exists>s. t = Some (JStr s) \<and> trim s \<noteq> [])"
    then have "task_accepted t" by (simp add: task_accepted_cases)
    from update_todo_completed_rejected [OF get assms(1,3) this assms(4) rej]
    show "fst (update_todo e ident (Some b) w) = Response 400 (Error CompletedInvalid)"
      by simp
  }
  {
    assume ok: "(t = None \<or> (\<exists>s. t = Some (JStr s) \<and> trim s \<noteq> [])) \<and>
          (d = None \<or> (\<exists>c. d = Some (JBool c))) \<and> writable e w"
    let ?ts = "assign_completed d i (assign_task t i (stored w))"
    let ?w2 = "if t = None \<and> d = None then w else inPlace w ?ts"
    from ok have ta: "task_accepted t" and da: "completed_accepted d"
      by (simp_all add: task_accepted_cases completed_accepted_cases)
    from ok have "writable e ?w2" by (simp add: writable_inPlace)
    then obtain w3 where w3: "saveTasks e ?w2 ?ts = Inr w3" "stored w3 = ?ts"
      using saveTasks_writable by blast
    from update_todo_accepted [OF get assms(1,3) ta assms(4) da] w3(1)
    have res: "update_todo e ident (Some b) w = (Response 200 (Data (?ts ! i)), w3)"
      by simp
    from res i
    show "fst (update_todo e ident (Some b) w) =
              Response 200 (Data ((stored w ! i)
                \<lparr>task := (case t of Some (JStr s) \<Rightarrow> trim s | _ \<Rightarrow> task (stored w ! i)),
                 completed := (case d of Some (JBool c) \<Rightarrow> c | _ \<Rightarrow> completed (stored w ! i))\<rparr>))"
      by (simp add: assign_both)
    from res w3(2) i
    show "stored (snd (update_todo e ident (Some b) w)) =
              (stored w)[i := (stored w ! i)
                \<lparr>task := (case t of Some (JStr s) \<Rightarrow> trim s | _ \<Rightarrow> task (stored w ! i)),
                 completed := (case d of Some (JBool c) \<Rightarrow> c | _ \<Rightarrow> completed (stored w ! i))\<rparr>]"
      by (simp add: assign_both)
  }
qed

theorem update_completed_checked_witness:
  "fst (update_todo (env_at ''u9'') (ascii ''u1'') (Some (JObj [(key_completed, JStr (ascii ''yes''))]))
          (kv_world [task_at ''u1'' ''a''])) = Response 400 (Error CompletedInvalid) \<and>
   fst (update_todo (env_at ''u9'') (ascii ''u1'')
          (Some (JObj [(key_task, JStr (ascii '' b '')), (key_completed, JBool True)]))
          (kv_world [task_at ''u1'' ''a''])) =
     Response 200 (Data ((task_at ''u1'' ''b'')\<lparr>completed := True\<rparr>)) \<and>
   stored (snd (update_todo (env_at ''u9'') (ascii ''u1'')
          (Some (JObj [(key_task, JStr (ascii '' b '')), (key_completed, JBool True)]))
          (kv_world [task_at ''u1'' ''a'']))) = [(task_at ''u1'' ''b'')\<lparr>completed := True\<rparr>]"
proof -
  let ?w = "kv_world [task_at ''u1'' ''a'']"
  let ?e = "env_at ''u9''"
  let ?b1 = "JObj [(key_completed, JStr (ascii ''yes''))]"
  let ?b2 = "JObj [(key_task, JStr (ascii '' b '')), (key_completed, JBool True)]"
  have st: "stored ?w = [task_at ''u1'' ''a'']"
    by (simp add: stored_def kv_world_def)
  have found: "findIndex (\<lambda>x. id' x = ascii ''u1'') (stored ?w) = Some 0"
    by (simp add: st id_task_at)
  have rd: "readable ?e ?w" and wr: "writable ?e ?w"
    by (simp_all add: readable_def writable_def env_at_def)
  have t1: "getProp ?b1 key_task = Inr None"
    and d1: "getProp ?b1 key_completed = Inr (Some (JStr (ascii ''yes'')))"
    and t2: "getProp ?b2 key_task = Inr (Some (JStr (ascii '' b '')))"
    and d2: "getProp ?b2 key_completed = Inr (Some (JBool True))"
    by (simp_all add: getProp_def key_task_def key_completed_def ascii_def)
  have tr: "trim (ascii '' b '') = ascii ''b''"
    by (simp add: trim_def ascii_def isWhiteSpace_def)
  have "\<exists>v. Some (JStr (ascii ''yes'')) = Some v \<and> (\<forall>c. v \<noteq> JBool c)"
    by simp
  with update_completed_checked [OF found rd t1 d1]
  have "fst (update_todo ?e (ascii ''u1'') (Some ?b1) ?w) = Response 400 (Error CompletedInvalid)"
    by blast
  moreover have "(Some (JStr (ascii '' b '')) = None \<or>
        (\<exists>s. Some (JStr (ascii '' b '')) = Some (JStr s) \<and> trim s \<noteq> [])) \<and>
      (Some (JBool True) = None \<or> (\<exists>c. Some (JBool True) = Some (JBool c))) \<and> writable ?e ?w"
    using wr by (auto simp: ascii_def trim_def isWhiteSpace_def)
  with update_completed_checked [OF found rd t2 d2]
  have "fst (update_todo ?e (ascii ''u1'') (Some ?b2) ?w) =
          Response 200 (Data ((stored ?w ! 0)\<lparr>task := trim (ascii '' b ''), completed := True\<rparr>)) \<and>
        stored (snd (update_todo ?e (ascii ''u1'') (Some ?b2) ?w)) =
          (stored ?w)[0 := (stored ?w ! 0)\<lparr>task := trim (ascii '' b ''), completed := True\<rparr>]"
    by simp
  then have "fst (update_todo ?e (ascii ''u1'') (Some ?b2) ?w) =
          Response 200 (Data ((task_at ''u1'' ''b'')\<lparr>completed := True\<rparr>)) \<and>
        stored (snd (update_todo ?e (ascii ''u1'') (Some ?b2) ?w)) =
          [(task_at ''u1'' ''b'')\<lparr>completed := True\<rparr>]"
    by (simp add: tr stored_kv_world task_at_def)
  ultimately show ?thesis by simp
qed

text \<open>
  The variant with numeric identifiers does not check \<open>completed\<close>: the string
  \<open>"yes"\<close> is stored as \<open>true\<close> and the answer is 200.
\<close>

theorem update_num_coerces_counterexample:
  "update_todo_num (env_num_at 1714557600001) (Some 1714557600000)
     (Some (JObj [(key_completed, JStr (ascii ''yes''))]))
     (Some (KV (Some [task_num_at 1714557600000 ''a'']))) =
   (Response 200 (Data ((task_num_at 1714557600000 ''a'')\<lparr>completed := True\<rparr>)),
    Some (KV (Some [(task_num_at 1714557600000 ''a'')\<lparr>completed := True\<rparr>])))"
  by (simp add: update_todo_num_def getTasks_num_def saveTasks_num_def env_num_at_def
      task_num_at_def getProp_def key_task_def key_completed_def ascii_def)

text \<open>
  C2. Without a binding the update assigns the new text to the record of \<open>localTasks\<close>
  before it checks \<open>completed\<close>: when the \<open>task\<close> of the body is acceptable and
  its \<open>completed\<close> is not a boolean, the answer is 400 and the stored record has the
  new text all the same.
\<close>

theorem update_partial_on_error:
  assumes "TODO_KV w = None"
    and "findIndex (\<lambda>x. id' x = ident) (stored w) = Some i"
    and "getProp b key_task = Inr (Some (JStr s))" and "trim s \<noteq> []"
    and "getProp b key_completed = Inr (Some v)" and "\<forall>c. v \<noteq> JBool c"
  shows "fst (update_todo e ident (Some b) w) = Response 400 (Error CompletedInvalid) \<and>
         stored (snd (update_todo e ident (Some b) w)) =
           (stored w)[i := (stored w ! i)\<lparr>task := trim s\<rparr>]"
proof -
  have rd: "readable e w" using assms(1) by (simp add: readable_def)
  have ta: "task_accepted (Some (JStr s))"
    using assms(4) by (simp add: task_accepted_cases)
  have da: "\<not> completed_accepted (Some v)"
    using assms(6) by (simp add: completed_accepted_cases)
  from update_todo_completed_rejected [OF getTasks_readable [OF rd] assms(2,3) ta assms(5) da]
  have "update_todo e ident (Some b) w =
      (Response 400 (Error CompletedInvalid),
       inPlace w (assign_task (Some (JStr s)) i (stored w)))"
    by simp
  then show ?thesis
    using assms(1) by (simp add: stored_inPlace assign_task_def)
qed

text \<open>
  The request below is answered 400, and the listing that returned the text \<open>a\<close>
  before it returns the text \<open>b\<close> after it.
\<close>

theorem update_partial_on_error_witness:
  "update_todo (env_at ''u9'') (ascii ''u1'')
     (Some (JObj [(key_task, JStr (ascii ''b'')), (key_completed, JStr (ascii ''yes''))]))
     (local_world [task_at ''u1'' ''a'']) =
   (Response 400 (Error CompletedInvalid), local_world [task_at ''u1'' ''b'']) \<and>
   list_todos (env_at ''u9'') (local_world [task_at ''u1'' ''a'']) =
     (Response 200 (DataList [task_at ''u1'' ''a'']), local_world [task_at ''u1'' ''a'']) \<and>
   list_todos (env_at ''u9'') (local_world [task_at ''u1'' ''b'']) =
     (Response 200 (DataList [task_at ''u1'' ''b'']), local_world [task_at ''u1'' ''b'']) \<and>
   [task_at ''u1'' ''b''] \<noteq> stored (local_world [task_at ''u1'' ''a''])"
proof -
  let ?b = "JObj [(key_task, JStr (ascii ''b'')), (key_completed, JStr (ascii ''yes''))]"
  let ?w = "local_world [task_at ''u1'' ''a'']"
  have run: "update_todo (env_at ''u9'') (ascii ''u1'') (Some ?b) ?w =
      (Response 400 (Error CompletedInvalid), local_world [task_at ''u1'' ''b''])"
    by (simp add: update_todo_def getTasks_def inPlace_def local_world_def
      task_at_def env_at_def getProp_def key_task_def key_completed_def ascii_def trim_def
      isWhiteSpace_def)
  have lists: "list_todos (env_at ''u9'') (local_world ts) =
      (Response 200 (DataList ts), local_world ts)" for ts
    by (simp add: list_todos_def getTasks_def local_world_def)
  have kv: "TODO_KV ?w = None" by (simp add: local_world_def)
  have found: "findIndex (\<lambda>x. id' x = ascii ''u1'') (stored ?w) = Some 0"
    by (simp add: stored_local_world id_task_at)
  have t: "getProp ?b key_task = Inr (Some (JStr (ascii ''b'')))"
    and d: "getProp ?b key_completed = Inr (Some (JStr (ascii ''yes'')))"
    by (simp_all add: getProp_def key_task_def key_completed_def ascii_def)
  have tr: "trim (ascii ''b'') \<noteq> []"
    by (simp add: trim_def ascii_def isWhiteSpace_def)
  have nb: "\<forall>c. JStr (ascii ''yes'') \<noteq> JBool c" by simp
  from update_partial_on_error [OF kv found t tr d nb, of "env_at ''u9''"] run
  have "fst (update_todo (env_at ''u9'') (ascii ''u1'') (Some ?b) ?w) =
          Response 400 (Error CompletedInvalid) \<and>
        stored (snd (update_todo (env_at ''u9'') (ascii ''u1'') (Some ?b) ?w)) =
          [task_at ''u1'' ''b'']"
    by (simp add: stored_local_world)
  moreover have "[task_at ''u1'' ''b''] \<noteq> stored ?w"
    by (simp add: stored_local_world task_at_def ascii_def)
  ultimately show ?thesis using run lists by simp
qed


section \<open>Deleting a task\<close>

text \<open>
  C8. When record \<open>i\<close> is the first with the requested identifier and the namespace
  (if there is one) answers, the delete answers 200 with that record and leaves the
  collection without it, one shorter; when no other stored record has the identifier, a
  second delete of it, on a readable store, answers 404 and leaves the state as it was.
\<close>

theorem delete_removes_one:
  assumes "findIndex (\<lambda>x. id' x = ident) (stored w) = Some i"
    and "readable e w" and "writable e w"
  shows "fst (delete_todo e ident w) = Response 200 (Data (stored w ! i)) \<and>
         stored (snd (delete_todo e ident w)) = splice1 i (stored w) \<and>
         Suc (length (stored (snd (delete_todo e ident w)))) = length (stored w) \<and>
         ((\<forall>j<length (stored w). j \<noteq> i \<longrightarrow> id' (stored w ! j) \<noteq> ident) \<longrightarrow>
            (\<forall>e2. readable e2 (snd (delete_todo e ident w)) \<longrightarrow>
               delete_todo e2 ident (snd (delete_todo e ident w)) =
                 (Response 404 (Error NotFound), snd (delete_todo e ident w))))"
proof -
  let ?ts = "splice1 i (stored w)"
  from assms(1) have i: "i < length (stored w)" by (rule findIndex_length)
  have "writable e (inPlace w ?ts)"
    using assms(3) by (simp add: writable_inPlace)
  then obtain w' where w': "saveTasks e (inPlace w ?ts) ?ts = Inr w'" "stored w' = ?ts"
    using saveTasks_writable by blast
  from delete_todo_found [OF getTasks_readable [OF assms(2)] assms(1)] w'(1)
  have res: "delete_todo e ident w = (Response 200 (Data (stored w ! i)), w')"
    by simp
  have again: "delete_todo e2 ident w' = (Response 404 (Error NotFound), w')"
    if once: "\<forall>j<length (stored w). j \<noteq> i \<longrightarrow> id' (stored w ! j) \<noteq> ident"
      and rd: "readable e2 w'" for e2
  proof -
    have "\<forall>x\<in>set (stored w'). id' x \<noteq> ident"
      using once w'(2) by (auto dest!: set_splice1)
    then have "findIndex (\<lambda>x. id' x = ident) (stored w') = None"
      by (simp add: findIndex_None_iff)
    then show ?thesis
      by (simp add: delete_todo_def getTasks_readable [OF rd])
  qed
  from res w'(2) i again show ?thesis
    by (simp add: length_splice1)
qed

theorem delete_removes_one_witness:
  "delete_todo (env_at ''u9'') (ascii ''u1'') (kv_world [task_at ''u1'' ''a'', task_at ''u2'' ''b'']) =
     (Response 200 (Data (task_at ''u1'' ''a'')), kv_world [task_at ''u2'' ''b'']) \<and>
   delete_todo (env_at ''u8'') (ascii ''u1'') (kv_world [task_at ''u2'' ''b'']) =
     (Response 404 (Error NotFound), kv_world [task_at ''u2'' ''b''])"
proof -
  let ?w = "kv_world [task_at ''u1'' ''a'', task_at ''u2'' ''b'']"
  let ?e = "env_at ''u9''"
  have run: "delete_todo ?e (ascii ''u1'') ?w =
      (Response 200 (Data (task_at ''u1'' ''a'')), kv_world [task_at ''u2'' ''b''])"
    by (simp add: delete_todo_def getTasks_def saveTasks_def inPlace_def kv_world_def
        env_at_def id_task_at splice1_def)
  have found: "findIndex (\<lambda>x. id' x = ascii ''u1'') (stored ?w) = Some 0"
    by (simp add: stored_kv_world id_task_at)
  have rd: "readable ?e ?w" and wr: "writable ?e ?w"
    and rd2: "readable (env_at ''u8'') (kv_world [task_at ''u2'' ''b''])"
    by (simp_all add: readable_def writable_def env_at_def)
  have once: "\<forall>j<length (stored ?w). j \<noteq> 0 \<longrightarrow> id' (stored ?w ! j) \<noteq> ascii ''u1''"
    by (simp add: stored_kv_world id_task_at ascii_def nth_Cons split: nat.splits)
  from delete_removes_one [OF found rd wr] once rd2 run
  have "delete_todo (env_at ''u8'') (ascii ''u1'') (kv_world [task_at ''u2'' ''b'']) =
     (Response 404 (Error NotFound), kv_world [task_at ''u2'' ''b''])"
    by simp
  with run show ?thesis by simp
qed

text \<open>
  With two stored records of one identifier the second delete finds the other record and
  answers 200.
\<close>

theorem delete_twice_counterexample:
  "delete_todo (env_at ''u9'') (ascii ''u1'') (local_world [task_at ''u1'' ''a'', task_at ''u1'' ''b'']) =
     (Response 200 (Data (task_at ''u1'' ''a'')), local_world [task_at ''u1'' ''b'']) \<and>
   delete_todo (env_at ''u9'') (ascii ''u1'') (local_world [task_at ''u1'' ''b'']) =
     (Response 200 (Data (task_at ''u1'' ''b'')), local_world [])"
  by (simp add: delete_todo_def getTasks_def saveTasks_def inPlace_def local_world_def
      env_at_def id_task_at splice1_def)

text \<open>
  Such a collection arises in the variant with numeric identifiers when two creates run
  in the same millisecond; both deletes of the identifier then answer 200.
\<close>

lemma same_millisecond_duplicates:
  "snd (create_todo_num (env_num_at 1714557600000) (Some (JObj [(key_task, JStr (ascii ''b''))]))
     (snd (create_todo_num (env_num_at 1714557600000) (Some (JObj [(key_task, JStr (ascii ''a''))]))
       (Some (KV None))))) =
   Some (KV (Some [task_num_at 1714557600000 ''a'', task_num_at 1714557600000 ''b'']))"
  by (simp add: create_todo_num_def getTasks_num_def saveTasks_num_def env_num_at_def
      task_num_at_def getProp_def ascii_def trim_def isWhiteSpace_def Let_def)

lemma delete_num_twice:
  "delete_todo_num (env_num_at 1714557600005) (Some 1714557600000)
     (Some (KV (Some [task_num_at 1714557600000 ''a'', task_num_at 1714557600000 ''b'']))) =
   (Response 200 (Data (task_num_at 1714557600000 ''a'')),
    Some (KV (Some [task_num_at 1714557600000 ''b'']))) \<and>
   delete_todo_num (env_num_at 1714557600009) (Some 1714557600000)
     (Some (KV (Some [task_num_at 1714557600000 ''b'']))) =
   (Response 200 (Data (task_num_at 1714557600000 ''b'')), Some (KV (Some [])))"
  by (simp add: delete_todo_num_def getTasks_num_def saveTasks_num_def env_num_at_def
      task_num_at_def splice1_def Let_def)


section \<open>Sequences of requests\<close>

lemma distinct_handle:
  assumes "distinct (map id' (stored w))"
    and "\<And>e body. x = Create e body \<Longrightarrow> randomUUID e \<notin> set (map id' (stored w))"
  shows "distinct (map id' (stored (snd (handle x w))))"
proof (cases x)
  case (Create e body)
  from assms(2) [OF Create] have "\<forall>t\<in>set (stored w). id' t \<noteq> randomUUID e"
    by (simp add: image_iff) metis
  with create_effect [of e body w] sent_cases [of 201 "fst (create_todo e body w)"]
    assms(1) Create
  show ?thesis by auto
next
  case (Update e ident body)
  with assms(1) show ?thesis by (simp add: update_keeps_ids)
next
  case (Delete e ident)
  with delete_effect [of e ident w] assms(1) show ?thesis
    by (auto simp: distinct_splice1)
qed

lemma distinct_run:
  "distinct (map id' (stored w)) \<Longrightarrow> fresh_ids ops w \<Longrightarrow>
     distinct (map id' (stored (run ops w)))"
proof (induction ops arbitrary: w)
  case Nil
  then show ?case by simp
next
  case (Cons x xs)
  have "distinct (map id' (stored (snd (handle x w))))"
    using Cons.prems by (intro distinct_handle) auto
  moreover have "fresh_ids xs (snd (handle x w))"
    using Cons.prems(2) by (cases x) auto
  ultimately show ?case
    using Cons.IH by simp
qed

text \<open>
  C3. Starting from an empty collection, after any sequence of creates, updates and
  deletes in which every create draws an identifier that no stored record has at that
  moment, no two stored records have the same identifier. The handlers themselves never
  compare a new identifier with the stored ones.
\<close>

theorem ids_unique_when_fresh:
  assumes "stored w = []" and "fresh_ids ops w"
  shows "distinct (map id' (stored (run ops w)))"
  using distinct_run [OF _ assms(2)] assms(1) by simp

theorem ids_unique_when_fresh_witness:
  "distinct (map id' (stored (run
     [Create (env_at ''u1'') (Some (body_of ''a'')), Create (env_at ''u2'') (Some (body_of ''b'')),
      Delete (env_at ''u9'') (ascii ''u1'')] (local_world []))))"
proof -
  have "fresh_ids
     [Create (env_at ''u1'') (Some (body_of ''a'')), Create (env_at ''u2'') (Some (body_of ''b'')),
      Delete (env_at ''u9'') (ascii ''u1'')] (local_world [])"
    by (simp add: create_local stored_local_world id_task_at)
      (simp add: env_at_def ascii_def)
  then show ?thesis
    by (rule ids_unique_when_fresh [OF stored_local_world])
qed

text \<open>
  In the variant with numeric identifiers two creates in the same millisecond store two
  records with the same identifier.
\<close>

theorem create_num_same_id_counterexample:
  "\<not> distinct (map id' (stored_num
     (snd (create_todo_num (env_num_at 1714557600000) (Some (JObj [(key_task, JStr (ascii ''b''))]))
       (snd (create_todo_num (env_num_at 1714557600000) (Some (JObj [(key_task, JStr (ascii ''a''))]))
         (Some (KV None))))))))"
  by (simp add: create_todo_num_def getTasks_num_def saveTasks_num_def env_num_at_def
      stored_num_def getProp_def ascii_def trim_def isWhiteSpace_def Let_def)

text \<open>
  The variant with numeric identifiers keeps them distinct under the same proviso, also
  when the namespace fails.
\<close>

lemma getTasks_num_cases: "getTasks_num e s = stored_num s \<or> getTasks_num e s = []"
  by (simp add: getTasks_num_def stored_num_def split: option.splits)

lemma saveTasks_num_cases:
  "stored_num (saveTasks_num e s ts) = ts \<or> saveTasks_num e s ts = s"
  by (simp add: saveTasks_num_def stored_num_def split: option.splits)

lemma create_num_stored:
  "stored_num (snd (create_todo_num e body s)) = stored_num s \<or>
   (\<exists>t. id' t = Date_now e \<and>
      stored_num (snd (create_todo_num e body s)) = getTasks_num e s @ [t])"
proof (cases body)
  case None
  then show ?thesis by (simp add: create_todo_num_def)
next
  case (Some b)
  show ?thesis
  proof (cases "getProp b key_task")
    case (Inl x)
    with Some show ?thesis by (simp add: create_todo_num_def)
  next
    case (Inr t)
    show ?thesis
    proof (cases "\<not> truthy t \<or> typeof t \<noteq> TString \<or> trim_call t = Inr []")
      case True
      with Some Inr show ?thesis by (simp add: create_todo_num_def)
    next
      case False
      then obtain v where v: "t = Some (JStr v)" by (auto simp: typeof_TString)
      let ?nt = "\<lparr>id' = Date_now e, task = trim v, completed = False,
                  createdAt = toISOString e\<rparr>"
      from Some Inr False v
      have "snd (create_todo_num e body s) = saveTasks_num e s (getTasks_num e s @ [?nt])"
        by (simp add: create_todo_num_def Let_def)
      with saveTasks_num_cases [of e s "getTasks_num e s @ [?nt]"] show ?thesis
        by auto
    qed
  qed
qed

lemma update_num_ids:
  "map id' (stored_num (snd (update_todo_num e ident body s))) = map id' (stored_num s)"
proof (cases body)
  case None
  then show ?thesis by (simp add: update_todo_num_def)
next
  case (Some b)
  let ?tasks = "getTasks_num e s"
  show ?thesis
  proof (cases "findIndex (\<lambda>t. Some (id' t) = ident) ?tasks")
    case None
    with Some show ?thesis by (simp add: update_todo_num_def)
  next
    case found: (Some i)
    then have "?tasks \<noteq> []" by auto
    with getTasks_num_cases [of e s] have tasks: "?tasks = stored_num s" by simp
    show ?thesis
    proof (cases "getProp b key_task")
      case (Inl x)
      with Some found show ?thesis by (simp add: update_todo_num_def)
    next
      case t: (Inr t)
      obtain d where d: "getProp b key_completed = Inr d"
        using t getProp_Inl [of b key_completed _ key_task]
        by (cases "getProp b key_completed") auto
      show ?thesis
      proof (cases "task_accepted t")
        case False
        with Some found t show ?thesis
          by (simp add: update_todo_num_def task_accepted_def)
      next
        case True
        then have "t = None \<or> (\<exists>v. t = Some (JStr v) \<and> trim v \<noteq> [])"
          by (simp add: task_accepted_cases)
        let ?ts1 = "assign_task t i ?tasks"
        let ?ts = "if d \<noteq> None then ?ts1[i := (?ts1 ! i)\<lparr>completed := truthy d\<rparr>] else ?ts1"
        have ids: "map id' ?ts = map id' ?tasks"
          by (simp add: map_update_same map_id_assign_task)
        from True have "t = None \<or> (\<exists>v. t = Some (JStr v) \<and> trim v \<noteq> [])"
          by (simp add: task_accepted_cases)
        then have "snd (update_todo_num e ident body s) = saveTasks_num e s ?ts"
          using Some found t d
          by (auto simp: update_todo_num_def Let_def assign_task_def)
        with ids obtain ts where ts: "map id' ts = map id' ?tasks"
          "snd (update_todo_num e ident body s) = saveTasks_num e s ts"
          by blast
        with saveTasks_num_cases [of e s ts] tasks show ?thesis by auto
      qed
    qed
  qed
qed

lemma delete_num_stored:
  "stored_num (snd (delete_todo_num e ident s)) = stored_num s \<or>
   (\<exists>i. stored_num (snd (delete_todo_num e ident s)) = splice1 i (stored_num s))"
proof (cases "findIndex (\<lambda>t. Some (id' t) = ident) (getTasks_num e s)")
  case None
  then show ?thesis by (simp add: delete_todo_num_def)
next
  case (Some i)
  then have "getTasks_num e s \<noteq> []" by auto
  with getTasks_num_cases [of e s] have tasks: "getTasks_num e s = stored_num s" by simp
  from Some have "snd (delete_todo_num e ident s) = saveTasks_num e s (splice1 i (stored_num s))"
    by (simp add: delete_todo_num_def Let_def tasks)
  with saveTasks_num_cases [of e s "splice1 i (stored_num s)"] show ?thesis by auto
qed

lemma distinct_handle_num:
  assumes "distinct (map id' (stored_num s))"
    and "\<And>e body. x = Create_num e body \<Longrightarrow> Date_now e \<notin> set (map id' (stored_num s))"
  shows "distinct (map id' (stored_num (snd (handle_num x s))))"
proof (cases x)
  case (Create_num e body)
  from assms(2) [OF Create_num] have new: "Date_now e \<notin> set (map id' (stored_num s))" .
  from create_num_stored [of e body s]
  consider "stored_num (snd (create_todo_num e body s)) = stored_num s"
    | t where "id' t = Date_now e"
      "stored_num (snd (create_todo_num e body s)) = getTasks_num e s @ [t]"
    by blast
  then show ?thesis
  proof cases
    case 1
    with assms(1) Create_num show ?thesis by simp
  next
    case 2
    from getTasks_num_cases [of e s] have "distinct (map id' (getTasks_num e s @ [t]))"
    proof
      assume "getTasks_num e s = stored_num s"
      with assms(1) new 2(1) show ?thesis by simp
    next
      assume "getTasks_num e s = []"
      then show ?thesis by simp
    qed
    with 2(2) Create_num show ?thesis by simp
  qed
next
  case (Update_num e ident body)
  with assms(1) show ?thesis by (simp add: update_num_ids)
next
  case (Delete_num e ident)
  with delete_num_stored [of e ident s] assms(1) show ?thesis
    by (auto simp: distinct_splice1)
qed

lemma ids_unique_when_fresh_num:
  "distinct (map id' (stored_num s)) \<Longrightarrow> fresh_ids_num ops s \<Longrightarrow>
     distinct (map id' (stored_num (run_num ops s)))"
proof (induction ops arbitrary: s)
  case Nil
  then show ?case by simp
next
  case (Cons x xs)
  have "distinct (map id' (stored_num (snd (handle_num x s))))"
    using Cons.prems by (intro distinct_handle_num) auto
  moreover have "fresh_ids_num xs (snd (handle_num x s))"
    using Cons.prems(2) by (cases x) auto
  ultimately show ?case
    using Cons.IH by simp
qed

lemma run_invariant:
  assumes "\<forall>x\<in>set ops. \<not> is_update x"
  shows "subseq (stored (run ops w)) (stored w @ created ops w) \<and>
         mset (stored (run ops w)) + mset (deleted ops w) = mset (stored w) + mset (created ops w)"
  using assms
proof (induction ops arbitrary: w)
  case Nil
  show ?case by simp
next
  case (Cons x xs)
  let ?w1 = "snd (handle x w)"
  from Cons.prems have xs: "\<forall>x\<in>set xs. \<not> is_update x" by simp
  note IH = Cons.IH [OF xs, of ?w1]
  show ?case
  proof (cases x)
    case (Create e body)
    from create_effect [of e body w]
    have st: "stored (snd (create_todo e body w)) =
        stored w @ sent 201 (fst (create_todo e body w))"
      by simp
    from IH show ?thesis by (simp add: Create st)
  next
    case (Update e ident body)
    with Cons.prems show ?thesis by simp
  next
    case (Delete e ident)
    from delete_effect [of e ident w]
    consider "sent 200 (fst (delete_todo e ident w)) = []" "stored ?w1 = stored w"
      | i where "i < length (stored w)" "sent 200 (fst (delete_todo e ident w)) = [stored w ! i]"
        "stored ?w1 = splice1 i (stored w)"
      by (auto simp: Delete)
    then show ?thesis
    proof cases
      case 1
      with IH show ?thesis by (simp add: Delete)
    next
      case 2
      from IH 2
      have "subseq (stored (run xs ?w1)) (splice1 i (stored w) @ created xs ?w1)"
        by simp
      moreover
      have "subseq (splice1 i (stored w) @ created xs ?w1) (stored w @ created xs ?w1)"
        by (intro list_emb_append_mono subseq_splice1) simp
      ultimately have "subseq (stored (run xs ?w1)) (stored w @ created xs ?w1)"
        by (rule subseq_order.trans)
      moreover
      have "mset (stored w) + mset (created xs ?w1) =
              add_mset (stored w ! i) (mset (splice1 i (stored w)) + mset (created xs ?w1))"
        using mset_splice1 [OF 2(1)] by (metis union_mset_add_mset_left)
      with IH 2
      have "mset (stored w) + mset (created xs ?w1) =
              add_mset (stored w ! i) (mset (stored (run xs ?w1)) + mset (deleted xs ?w1))"
        by simp
      ultimately show ?thesis using 2(2) by (simp add: Delete)
    qed
  qed
qed

text \<open>
  C9. Starting from an empty collection, after any sequence of creates and deletes
  (whether they succeed or not), the stored collection has as many records as creates
  succeeded minus deletes succeeded; it is a subsequence of the records the successful
  creates returned, in their order; together with the records the successful deletes
  returned it makes up exactly those; and the listing, when the store can be read,
  answers 200 with it.
\<close>

theorem list_after_creates_and_deletes:
  assumes "stored w = []" and "\<forall>x\<in>set ops. \<not> is_update x"
  shows "length (stored (run ops w)) = length (created ops w) - length (deleted ops w) \<and>
         length (deleted ops w) \<le> length (created ops w) \<and>
         subseq (stored (run ops w)) (created ops w) \<and>
         mset (stored (run ops w)) + mset (deleted ops w) = mset (created ops w) \<and>
         (\<forall>e. readable e (run ops w) \<longrightarrow>
            list_todos e (run ops w) = (Response 200 (DataList (stored (run ops w))), run ops w))"
proof -
  from run_invariant [OF assms(2), of w] assms(1)
  have sub: "subseq (stored (run ops w)) (created ops w)"
    and ms: "mset (stored (run ops w)) + mset (deleted ops w) = mset (created ops w)"
    by simp_all
  from ms have "size (mset (stored (run ops w)) + mset (deleted ops w)) = size (mset (created ops w))"
    by simp
  then have len: "length (stored (run ops w)) + length (deleted ops w) = length (created ops w)"
    by simp
  have "list_todos e (run ops w) = (Response 200 (DataList (stored (run ops w))), run ops w)"
    if "readable e (run ops w)" for e
    using that by (simp add: list_todos_def getTasks_readable)
  with sub ms len show ?thesis by simp
qed

theorem list_after_creates_and_deletes_witness:
  "stored (run [Create (env_at ''u1'') (Some (body_of ''a'')),
                Create (env_at ''u2'') (Some (body_of ''b'')),
                Delete (env_at ''u9'') (ascii ''u1'')] (local_world [])) = [task_at ''u2'' ''b''] \<and>
   created [Create (env_at ''u1'') (Some (body_of ''a'')),
            Create (env_at ''u2'') (Some (body_of ''b'')),
            Delete (env_at ''u9'') (ascii ''u1'')] (local_world []) =
     [task_at ''u1'' ''a'', task_at ''u2'' ''b''] \<and>
   deleted [Create (env_at ''u1'') (Some (body_of ''a'')),
            Create (env_at ''u2'') (Some (body_of ''b'')),
            Delete (env_at ''u9'') (ascii ''u1'')] (local_world []) = [task_at ''u1'' ''a''] \<and>
   list_todos (env_at ''u7'')
     (run [Create (env_at ''u1'') (Some (body_of ''a'')),
           Create (env_at ''u2'') (Some (body_of ''b'')),
           Delete (env_at ''u9'') (ascii ''u1'')] (local_world [])) =
     (Response 200 (DataList [task_at ''u2'' ''b'']), local_world [task_at ''u2'' ''b''])"
proof -
  let ?ops = "[Create (env_at ''u1'') (Some (body_of ''a'')),
               Create (env_at ''u2'') (Some (body_of ''b'')),
               Delete (env_at ''u9'') (ascii ''u1'')]"
  have r: "run ?ops (local_world []) = local_world [task_at ''u2'' ''b'']"
    by (simp add: create_local delete_local_first)
  have c: "created ?ops (local_world []) = [task_at ''u1'' ''a'', task_at ''u2'' ''b'']"
    by (simp add: create_local delete_local_first sent_def)
  have d: "deleted ?ops (local_world []) = [task_at ''u1'' ''a'']"
    by (simp add: create_local delete_local_first sent_def)
  have "\<forall>x\<in>set ?ops. \<not> is_update x" by simp
  from list_after_creates_and_deletes [OF stored_local_world this]
  have "\<forall>e. readable e (run ?ops (local_world [])) \<longrightarrow>
          list_todos e (run ?ops (local_world [])) =
            (Response 200 (DataList (stored (run ?ops (local_world [])))), run ?ops (local_world []))"
    by blast
  moreover have "readable (env_at ''u7'') (run ?ops (local_world []))"
    unfolding r by (simp add: readable_def local_world_def)
  ultimately have "list_todos (env_at ''u7'') (run ?ops (local_world [])) =
      (Response 200 (DataList (stored (run ?ops (local_world [])))), run ?ops (local_world []))"
    by blast
  with r c d show ?thesis by (simp add: stored_local_world)
qed

end
